theory Spec2Isabelle
  imports Main "HOL-Library.Sublist"
begin

section \<open>JavaScript strings\<close>

text \<open>
  A JavaScript string is modelled as a \<^typ>\<open>string\<close>, each \<^typ>\<open>char\<close> standing for one
  UTF-16 code unit below 256 (the Latin-1 range). Every literal of the source that the
  functions below compare against is ASCII.
\<close>

definition LF :: char where
  "LF = CHR 0x0A"

definition isWhiteSpace :: "char \<Rightarrow> bool" where
  \<comment> \<open>the code units that \<open>String.prototype.trim\<close> strips: TAB, LF, VT, FF, CR, SP, NBSP\<close>
  "isWhiteSpace c =
     (c = CHR 0x09 \<or> c = CHR 0x0A \<or> c = CHR 0x0B \<or> c = CHR 0x0C \<or> c = CHR 0x0D
      \<or> c = CHR 0x20 \<or> c = CHR 0xA0)"

definition trim :: "string \<Rightarrow> string" where
  "trim s = rev (dropWhile isWhiteSpace (rev (dropWhile isWhiteSpace s)))"

text \<open>
  Letters, by the bits of the code unit (\<open>Char b0 \<dots> b7\<close>, \<open>b0\<close> the lowest). With bits 6
  and 5 set and bit 7 clear, the low five bits 1 to 26 are \<open>a\<close> to \<open>z\<close>; with bit 7 set,
  the low five bits other than 23 and 31 are the Latin-1 small letters 0xE0 to 0xFE
  without the division sign 0xF7. The capital of a small letter has bit 5 cleared.
\<close>

definition letterIndex :: "bool \<Rightarrow> bool \<Rightarrow> bool \<Rightarrow> bool \<Rightarrow> bool \<Rightarrow> bool \<Rightarrow> bool" where
  "letterIndex b0 b1 b2 b3 b4 b7 =
     (if b7 then \<not> (b4 \<and> b2 \<and> b1 \<and> b0)
      else (b0 \<or> b1 \<or> b2 \<or> b3 \<or> b4) \<and> \<not> (b4 \<and> b3 \<and> (b2 \<or> (b1 \<and> b0))))"

fun toLowerChar :: "char \<Rightarrow> char" where
  "toLowerChar (Char b0 b1 b2 b3 b4 b5 b6 b7) =
     (if b6 \<and> \<not> b5 \<and> letterIndex b0 b1 b2 b3 b4 b7 then Char b0 b1 b2 b3 b4 True b6 b7
      else Char b0 b1 b2 b3 b4 b5 b6 b7)"

definition toLowerCase :: "string \<Rightarrow> string" where
  "toLowerCase s = map toLowerChar s"

fun canonicalize :: "char \<Rightarrow> char" where
  \<comment> \<open>\<open>Canonicalize\<close> of a case-insensitive, non-unicode RegExp: the upper-case code unit\<close>
  "canonicalize (Char b0 b1 b2 b3 b4 b5 b6 b7) =
     (if b6 \<and> b5 \<and> letterIndex b0 b1 b2 b3 b4 b7 then Char b0 b1 b2 b3 b4 False b6 b7
      else Char b0 b1 b2 b3 b4 b5 b6 b7)"

fun stringIncludes :: "string \<Rightarrow> string \<Rightarrow> bool" where
  \<comment> \<open>\<open>s.includes(n)\<close>\<close>
  "stringIncludes [] n = (n = [])"
| "stringIncludes (c # cs) n = (prefix n (c # cs) \<or> stringIncludes cs n)"

fun indexOfFrom :: "string \<Rightarrow> string \<Rightarrow> int \<Rightarrow> int" where
  "indexOfFrom [] n i = (if n = [] then i else - 1)"
| "indexOfFrom (c # cs) n i = (if prefix n (c # cs) then i else indexOfFrom cs n (i + 1))"

definition indexOf :: "string \<Rightarrow> string \<Rightarrow> int" where
  \<comment> \<open>\<open>s.indexOf(n)\<close>: the position of the first occurrence, or -1\<close>
  "indexOf s n = indexOfFrom s n 0"

fun joinWith :: "string \<Rightarrow> string list \<Rightarrow> string" where
  \<comment> \<open>\<open>xs.join(sep)\<close>\<close>
  "joinWith sep [] = []"
| "joinWith sep [x] = x"
| "joinWith sep (x # y # ys) = x @ sep @ joinWith sep (y # ys)"

section \<open>Regular expressions\<close>

text \<open>
  The fragment of the RegExp language that the source's patterns are written in, with the
  backtracking order of the JavaScript matcher: a literal code unit, \<open>.\<close>, the lazy
  \<open>[\s\S]*?\<close>, the greedy \<open>[^\n]*\<close> and a capturing \<open>([^\n]+)\<close>. \<open>CaptureStar\<close> is the
  rest of a \<open>CapturePlus\<close> after its first code unit. No pattern of the source has more
  than one capture group.
\<close>

datatype charClass = AnyChar | NotNewline

datatype atom = Lit char | Dot | LazyStar charClass | Star charClass
  | CapturePlus charClass | CaptureStar charClass

fun inClass :: "charClass \<Rightarrow> char \<Rightarrow> bool" where
  "inClass AnyChar c = True"
| "inClass NotNewline c = (c \<noteq> LF)"

definition isLineTerminator :: "char \<Rightarrow> bool" where
  "isLineTerminator c = (c = CHR 0x0A \<or> c = CHR 0x0D)"

definition charMatches :: "bool \<Rightarrow> char \<Rightarrow> char \<Rightarrow> bool" where
  "charMatches ignoreCase p c = (if ignoreCase then canonicalize p = canonicalize c else p = c)"

text \<open>
  \<open>matchHere ic p s\<close> matches the pattern at the start of \<open>s\<close> and returns the text of
  capture group 1 and the unconsumed rest of \<open>s\<close>.
\<close>

fun matchHere :: "bool \<Rightarrow> atom list \<Rightarrow> string \<Rightarrow> (string \<times> string) option" where
  "matchHere ic [] s = Some ([], s)"
| "matchHere ic (Lit p # as) [] = None"
| "matchHere ic (Lit p # as) (c # cs) =
     (if charMatches ic p c then matchHere ic as cs else None)"
| "matchHere ic (Dot # as) [] = None"
| "matchHere ic (Dot # as) (c # cs) =
     (if isLineTerminator c then None else matchHere ic as cs)"
| "matchHere ic (LazyStar k # as) [] = matchHere ic as []"
| "matchHere ic (LazyStar k # as) (c # cs) =
     (case matchHere ic as (c # cs) of
        Some r \<Rightarrow> Some r
      | None \<Rightarrow> if inClass k c then matchHere ic (LazyStar k # as) cs else None)"
| "matchHere ic (Star k # as) [] = matchHere ic as []"
| "matchHere ic (Star k # as) (c # cs) =
     (if inClass k c then
        (case matchHere ic (Star k # as) cs of
           Some r \<Rightarrow> Some r
         | None \<Rightarrow> matchHere ic as (c # cs))
      else matchHere ic as (c # cs))"
| "matchHere ic (CapturePlus k # as) [] = None"
| "matchHere ic (CapturePlus k # as) (c # cs) =
     (if inClass k c then
        (case matchHere ic (CaptureStar k # as) cs of
           Some (cap, rest) \<Rightarrow> Some (c # cap, rest)
         | None \<Rightarrow> None)
      else None)"
| "matchHere ic (CaptureStar k # as) [] = matchHere ic as []"
| "matchHere ic (CaptureStar k # as) (c # cs) =
     (if inClass k c then
        (case matchHere ic (CaptureStar k # as) cs of
           Some (cap, rest) \<Rightarrow> Some (c # cap, rest)
         | None \<Rightarrow> matchHere ic as (c # cs))
      else matchHere ic as (c # cs))"

text \<open>
  \<open>regexExec\<close> is \<open>s.match(re)\<close> for a RegExp without the \<open>g\<close> flag: the leftmost
  match. It returns the text before the match, the match, capture group 1 and the text
  after the match.
\<close>

fun regexExec :: "bool \<Rightarrow> atom list \<Rightarrow> string \<Rightarrow> string \<Rightarrow> (string \<times> string \<times> string \<times> string) option" where
  "regexExec ic p pre [] =
     (case matchHere ic p [] of
        Some (cap, rest) \<Rightarrow> Some (pre, [], cap, rest)
      | None \<Rightarrow> None)"
| "regexExec ic p pre (c # cs) =
     (case matchHere ic p (c # cs) of
        Some (cap, rest) \<Rightarrow> Some (pre, take (length (c # cs) - length rest) (c # cs), cap, rest)
      | None \<Rightarrow> regexExec ic p (pre @ [c]) cs)"

definition regexMatch :: "atom list \<Rightarrow> string \<Rightarrow> (string \<times> string) option" where
  \<comment> \<open>\<open>s.match(/p/i)\<close>: the pair of \<open>match[0]\<close> and \<open>match[1]\<close>\<close>
  "regexMatch p s =
     (case regexExec True p [] s of
        Some (pre, m, cap, rest) \<Rightarrow> Some (m, cap)
      | None \<Rightarrow> None)"

text \<open>
  \<open>GetSubstitution\<close>: in a replacement string \<open>$$\<close> is a dollar sign, \<open>$&\<close> the matched
  text, \<open>$`\<close> the text before the match and \<open>$'\<close> the text after it. The patterns
  replaced here have no capture group, so \<open>$1\<close> up to \<open>$99\<close> and \<open>$<\<close> stay as they are.
\<close>

fun getSubstitution :: "string \<Rightarrow> string \<Rightarrow> string \<Rightarrow> string \<Rightarrow> string" where
  "getSubstitution matched pre post [] = []"
| "getSubstitution matched pre post [c] = [c]"
| "getSubstitution matched pre post (c # d # rest) =
     (if c = CHR ''$'' \<and> d = CHR ''$'' then CHR ''$'' # getSubstitution matched pre post rest
      else if c = CHR ''$'' \<and> d = CHR ''&'' then matched @ getSubstitution matched pre post rest
      else if c = CHR ''$'' \<and> d = CHR 0x60 then pre @ getSubstitution matched pre post rest
      else if c = CHR ''$'' \<and> d = CHR 0x27 then post @ getSubstitution matched pre post rest
      else c # getSubstitution matched pre post (d # rest))"

definition regexReplaceFirst :: "atom list \<Rightarrow> string \<Rightarrow> string \<Rightarrow> string" where
  \<comment> \<open>\<open>s.replace(/p/i, v)\<close>: only the leftmost match is replaced\<close>
  "regexReplaceFirst p v s =
     (case regexExec True p [] s of
        Some (pre, m, cap, rest) \<Rightarrow> pre @ getSubstitution m pre rest v @ rest
      | None \<Rightarrow> s)"

text \<open>
  \<open>s.replace(re, v)\<close> for a RegExp with the \<open>g\<close> flag and no \<open>i\<close> flag: every match, from left
  to right; after an empty match the scan moves on by one code unit. \<open>pre\<close> is the part of
  the subject before the current position.
\<close>

function regexReplaceAllFrom :: "atom list \<Rightarrow> string \<Rightarrow> string \<Rightarrow> string \<Rightarrow> string" where
  "regexReplaceAllFrom p v pre [] =
     (case matchHere False p [] of
        Some (cap, rest) \<Rightarrow> getSubstitution [] pre [] v
      | None \<Rightarrow> [])"
| "regexReplaceAllFrom p v pre (c # cs) =
     (case matchHere False p (c # cs) of
        Some (cap, rest) \<Rightarrow>
          (if length rest < length (c # cs)
           then getSubstitution (take (length (c # cs) - length rest) (c # cs)) pre rest v
                  @ regexReplaceAllFrom p v (pre @ take (length (c # cs) - length rest) (c # cs)) rest
           else getSubstitution [] pre (c # cs) v @ c # regexReplaceAllFrom p v (pre @ [c]) cs)
      | None \<Rightarrow> c # regexReplaceAllFrom p v (pre @ [c]) cs)"
  by pat_completeness auto
termination
  by (relation "measure (\<lambda>(p, v, pre, s). length s)") auto

definition regexReplaceAll :: "atom list \<Rightarrow> string \<Rightarrow> string \<Rightarrow> string" where
  "regexReplaceAll p v s = regexReplaceAllFrom p v [] s"

section \<open>Template replacement\<close>

text \<open>
  \<open>compileKey k\<close> is \<open>new RegExp(k.replace(/[{}]/g, '\\$&'), 'g')\<close>. Only the two braces are
  escaped, so every other code unit of the key is read as pattern syntax. The result is
  \<open>None\<close> for a key with one of the syntax characters \<open>^ $ \ * + ? ( ) [ ] |\<close>, whose
  meaning (or \<open>SyntaxError\<close>) lies outside the fragment modelled here.
\<close>

definition unmodelledSyntax :: "char set" where
  "unmodelledSyntax = set ''^$*+?()[]|'' \<union> {CHR 0x5C}"

fun compileKey :: "string \<Rightarrow> atom list option" where
  "compileKey [] = Some []"
| "compileKey (c # cs) =
     (case compileKey cs of
        None \<Rightarrow> None
      | Some p \<Rightarrow>
          if c = CHR ''{'' \<or> c = CHR ''}'' then Some (Lit c # p)
          else if c = CHR ''.'' then Some (Dot # p)
          else if c \<in> unmodelledSyntax then None
          else Some (Lit c # p))"

text \<open>
  The token map is the list of its \<open>Object.entries\<close>, in that order. The loop threads
  \<open>result\<close> through one global replace per entry.
\<close>

fun applyTemplateReplacements :: "string \<Rightarrow> (string \<times> string) list \<Rightarrow> string option" where
  "applyTemplateReplacements result [] = Some result"
| "applyTemplateReplacements result ((placeholder, v) # replacements) =
     (case compileKey placeholder of
        None \<Rightarrow> None
      | Some p \<Rightarrow> applyTemplateReplacements (regexReplaceAll p v result) replacements)"

text \<open>
  What the specification asks of one token: every occurrence of the key, read as literal
  text, is replaced by the value as it stands, scanning from the left.
\<close>

function replaceLiteral :: "string \<Rightarrow> string \<Rightarrow> string \<Rightarrow> string" where
  "replaceLiteral k v [] = (if k = [] then v else [])"
| "replaceLiteral k v (c # cs) =
     (if k = [] then v @ c # replaceLiteral k v cs
      else if prefix k (c # cs) then v @ replaceLiteral k v (drop (length k) (c # cs))
      else c # replaceLiteral k v cs)"
  by pat_completeness auto
termination
  by (relation "measure (\<lambda>(k, v, s). length s)") (auto simp: neq_Nil_conv)

definition literalKey :: "string \<Rightarrow> bool" where
  "literalKey k = (set k \<inter> (unmodelledSyntax \<union> {CHR ''.''}) = {})"

definition plainValue :: "string \<Rightarrow> bool" where
  "plainValue v = (CHR ''$'' \<notin> set v)"

definition substituteLiterally :: "string \<Rightarrow> (string \<times> string) list \<Rightarrow> string" where
  \<comment> \<open>the tokens taken one after the other, in the order of the entries\<close>
  "substituteLiterally t reps = foldl (\<lambda>s (k, v). replaceLiteral k v s) t reps"

definition completes :: "string \<Rightarrow> string \<Rightarrow> bool" where
  \<comment> \<open>an inserted value \<open>v\<close> can be part of an occurrence of the key \<open>k\<close>: \<open>v\<close> is empty
      (the text on its two sides joins), \<open>k\<close> lies within \<open>v\<close>, \<open>v\<close> lies within \<open>k\<close>, \<open>k\<close> ends
      with a beginning of \<open>v\<close>, or \<open>k\<close> starts with an end of \<open>v\<close>\<close>
  "completes v k =
     (v = [] \<or> sublist k v \<or> sublist v k
      \<or> list_ex (\<lambda>p. p \<noteq> [] \<and> suffix p k) (prefixes v)
      \<or> list_ex (\<lambda>s. s \<noteq> [] \<and> prefix s k) (suffixes v))"

definition boundaryFree :: "(string \<times> string) list \<Rightarrow> bool" where
  \<comment> \<open>no value of the map can be part of an occurrence of a key of the map\<close>
  "boundaryFree reps = list_all (\<lambda>(k, v). list_all (\<lambda>(k', v'). \<not> completes v k') reps) reps"

section \<open>Extracting facts from the codebase analysis\<close>

datatype CustomerModel = B2C | B2B

datatype ProjectStructure = nextjs | react

datatype PathRole =
    apiRoutePath | libPath | componentsPath | serverFile | routeHandler | layoutFile
  | billingPage | packageFile | envFile | envVarAccess | mockBillingPath
  | pricingComponentPath | navbarComponentPath | dashboardComponentPath

text \<open>
  \<open>ExtractedCodebaseInfo\<close>. A value of type \<open>T | undefined\<close> is an option, \<open>None\<close> being
  \<open>undefined\<close>. The \<open>filePaths\<close> object is the map from its own keys to their values. The
  second argument of \<open>extractCodebaseInfo\<close>, a \<open>Partial\<close> of \<open>filePaths\<close>, is such a map too:
  a key of a \<open>Partial\<close> may be missing, or be there with the value \<open>undefined\<close>, and the
  spread \<open>...defaultPaths\<close> copies every key that is there, whatever its value.
\<close>

record ExtractedCodebaseInfo =
  framework :: string
  language :: string
  authLibrary :: string
  customerModel :: CustomerModel
  customerIdSource :: string
  projectStructure :: "ProjectStructure option"
  stackDetails :: "string option"
  additionalDetails :: "string option"
  filePaths :: "PathRole \<rightharpoonup> string option"

definition builtinFilePaths :: "PathRole \<rightharpoonup> string option" where
  "builtinFilePaths =
     [apiRoutePath \<mapsto> Some ''src/app/api'',
      libPath \<mapsto> Some ''src/lib'',
      componentsPath \<mapsto> Some ''src/components'',
      serverFile \<mapsto> Some ''src/lib/flowglad.ts'',
      routeHandler \<mapsto> Some ''src/app/api/flowglad/[...path]/route.ts'',
      layoutFile \<mapsto> Some ''src/app/layout.tsx'',
      billingPage \<mapsto> Some ''src/app/billing/page.tsx'',
      packageFile \<mapsto> Some ''package.json'',
      envFile \<mapsto> Some ''.env.local'',
      envVarAccess \<mapsto> Some ''process.env.VAR_NAME'',
      mockBillingPath \<mapsto> Some ''src/lib/billing.ts'',
      pricingComponentPath \<mapsto> Some ''src/components/pricing.tsx'',
      navbarComponentPath \<mapsto> Some ''src/components/navbar.tsx'',
      dashboardComponentPath \<mapsto> Some ''src/app/dashboard/page.tsx'']"

definition defaults :: "(PathRole \<rightharpoonup> string option) \<Rightarrow> ExtractedCodebaseInfo" where
  "defaults defaultPaths =
     \<lparr> framework = ''Next.js'',
       language = ''TypeScript'',
       authLibrary = ''unknown'',
       customerModel = B2C,
       customerIdSource = ''user.id'',
       projectStructure = None,
       stackDetails = None,
       additionalDetails = None,
       filePaths = builtinFilePaths ++ defaultPaths \<rparr>"

definition lits :: "string \<Rightarrow> atom list" where
  "lits s = map Lit s"

definition answerTo :: "string \<Rightarrow> atom list" where
  \<comment> \<open>\<open>/question[^\n]*\n- ([^\n]+)/i\<close>\<close>
  "answerTo question =
     lits question @ [Star NotNewline] @ lits [LF, CHR ''-'', CHR '' ''] @ [CapturePlus NotNewline]"

definition sectionAnswerTo :: "string \<Rightarrow> string \<Rightarrow> atom list" where
  \<comment> \<open>\<open>/heading[\s\S]*?question[^\n]*\n- ([^\n]+)/i\<close>\<close>
  "sectionAnswerTo heading question = lits heading @ [LazyStar AnyChar] @ answerTo question"

definition sectionBetween :: "string \<Rightarrow> string \<Rightarrow> atom list" where
  \<comment> \<open>\<open>/heading[\s\S]*?next/i\<close>\<close>
  "sectionBetween heading next = lits heading @ [LazyStar AnyChar] @ lits next"

definition extractFramework :: "string \<Rightarrow> ExtractedCodebaseInfo \<Rightarrow> ExtractedCodebaseInfo" where
  "extractFramework codebaseAnalysis info =
     (case regexMatch (sectionAnswerTo ''## 1. Framework & Language Detection''
                         ''What framework does the application use?'') codebaseAnalysis of
        None \<Rightarrow> info
      | Some (m, frameworkMatch1) \<Rightarrow>
          (let frameworkText = toLowerCase frameworkMatch1 in
           if stringIncludes frameworkText ''next.js'' \<or> stringIncludes frameworkText ''nextjs''
           then info\<lparr>projectStructure := Some nextjs, framework := ''Next.js''\<rparr>
           else if stringIncludes frameworkText ''react''
           then info\<lparr>projectStructure := Some react, framework := ''React''\<rparr>
           else info))"

definition extractLanguage :: "string \<Rightarrow> ExtractedCodebaseInfo \<Rightarrow> ExtractedCodebaseInfo" where
  "extractLanguage codebaseAnalysis info =
     (case regexMatch (answerTo ''What language is the server written in?'') codebaseAnalysis of
        None \<Rightarrow> info
      | Some (m, languageMatch1) \<Rightarrow> info\<lparr>language := trim languageMatch1\<rparr>)"

definition authLibraryPattern :: "atom list" where
  "authLibraryPattern =
     sectionAnswerTo ''## 3. Authentication System'' ''What authentication library/system is used?''"

definition extractAuthLibrary :: "string \<Rightarrow> ExtractedCodebaseInfo \<Rightarrow> ExtractedCodebaseInfo" where
  "extractAuthLibrary codebaseAnalysis info =
     (case regexMatch authLibraryPattern codebaseAnalysis of
        None \<Rightarrow> info
      | Some (m, authMatch1) \<Rightarrow>
          (let authText = toLowerCase authMatch1 in
           if stringIncludes authText ''clerk'' then info\<lparr>authLibrary := ''Clerk''\<rparr>
           else if stringIncludes authText ''supabase'' then info\<lparr>authLibrary := ''Supabase''\<rparr>
           else if stringIncludes authText ''nextauth'' \<or> stringIncludes authText ''next-auth''
           then info\<lparr>authLibrary := ''NextAuth''\<rparr>
           else info\<lparr>authLibrary := trim authMatch1\<rparr>))"

definition b2bMarker :: string where
  "b2bMarker = ''**B2B**: Businesses''"

definition b2cMarker :: string where
  "b2cMarker = ''**B2C**: Individual users''"

definition extractCustomerModel :: "string \<Rightarrow> ExtractedCodebaseInfo \<Rightarrow> ExtractedCodebaseInfo" where
  "extractCustomerModel codebaseAnalysis info =
     (let b2bIndex = indexOf codebaseAnalysis b2bMarker;
          b2cIndex = indexOf codebaseAnalysis b2cMarker
      in if b2bIndex \<noteq> - 1 \<and> (b2cIndex = - 1 \<or> b2bIndex < b2cIndex)
         then info\<lparr>customerModel := B2B\<rparr>
         else info)"

definition extractCustomerIdSource :: "string \<Rightarrow> ExtractedCodebaseInfo \<Rightarrow> ExtractedCodebaseInfo" where
  "extractCustomerIdSource codebaseAnalysis info =
     (case regexMatch (sectionAnswerTo ''Customer ID Source''
                         ''For B2C: What field identifies a user?'') codebaseAnalysis of
        None \<Rightarrow> info
      | Some (m, customerIdMatch1) \<Rightarrow> info\<lparr>customerIdSource := trim customerIdMatch1\<rparr>)"

definition extractStackDetails :: "string \<Rightarrow> ExtractedCodebaseInfo \<Rightarrow> ExtractedCodebaseInfo" where
  "extractStackDetails codebaseAnalysis info =
     (case regexMatch (sectionBetween ''## 2. File Structure & Paths'' ''## 3.'') codebaseAnalysis of
        None \<Rightarrow> info
      | Some (stackMatch0, c) \<Rightarrow>
          info\<lparr>stackDetails :=
            Some (trim (regexReplaceFirst (lits ''## 3.'') []
                         (regexReplaceFirst (lits ''## 2. File Structure & Paths'') [] stackMatch0)))\<rparr>)"

definition extractAdditionalDetails :: "string \<Rightarrow> ExtractedCodebaseInfo \<Rightarrow> ExtractedCodebaseInfo" where
  "extractAdditionalDetails codebaseAnalysis info =
     (case regexMatch (sectionBetween ''## 4. Customer Model'' ''## 5.'') codebaseAnalysis of
        None \<Rightarrow> info
      | Some (additionalMatch0, c) \<Rightarrow>
          info\<lparr>additionalDetails :=
            Some (trim (regexReplaceFirst (sectionBetween ''## 4. Customer Model'' ''## 5.'') []
                         additionalMatch0))\<rparr>)"

definition extractPath :: "PathRole \<Rightarrow> string \<Rightarrow> string \<Rightarrow> ExtractedCodebaseInfo \<Rightarrow> ExtractedCodebaseInfo" where
  \<comment> \<open>\<open>const m = codebaseAnalysis.match(/question[^\n]*\n- ([^\n]+)/i); if (m) info.filePaths.role = m[1].trim()\<close>\<close>
  "extractPath role question codebaseAnalysis info =
     (case regexMatch (answerTo question) codebaseAnalysis of
        None \<Rightarrow> info
      | Some (m, match1) \<Rightarrow> info\<lparr>filePaths := (filePaths info)(role \<mapsto> Some (trim match1))\<rparr>)"

definition extractLibPath :: "string \<Rightarrow> ExtractedCodebaseInfo \<Rightarrow> ExtractedCodebaseInfo" where
  "extractLibPath codebaseAnalysis info =
     (case regexMatch (answerTo ''Where are utility functions and shared code located?'') codebaseAnalysis of
        None \<Rightarrow> info
      | Some (m, libMatch1) \<Rightarrow>
          info\<lparr>filePaths := (filePaths info)
            (libPath \<mapsto> Some (trim libMatch1),
             serverFile \<mapsto> Some (trim libMatch1 @ ''/flowglad.''
                @ (if stringIncludes (language info) ''TypeScript'' then ''ts'' else ''js'')))\<rparr>)"

text \<open>
  The steps in the order of the source. \<open>!codebaseAnalysis\<close> holds for \<open>undefined\<close> and for
  the empty string.
\<close>

definition extractCodebaseInfo ::
  "string option \<Rightarrow> (PathRole \<rightharpoonup> string option) \<Rightarrow> ExtractedCodebaseInfo" where
  "extractCodebaseInfo codebaseAnalysis defaultPaths =
     (case codebaseAnalysis of
        None \<Rightarrow> defaults defaultPaths
      | Some doc \<Rightarrow>
          if doc = [] then defaults defaultPaths
          else
            (extractPath packageFile ''What is the name and location of the dependency file?'' doc
             (extractPath envVarAccess ''How are environment variables accessed?'' doc
             (extractPath envFile ''What is the name of the environment file?'' doc
             (extractPath dashboardComponentPath ''Where is the main dashboard/home page component?'' doc
             (extractPath navbarComponentPath ''Where is the navbar/account menu component?'' doc
             (extractPath pricingComponentPath ''Where is the pricing page/component?'' doc
             (extractPath componentsPath ''Where are UI components located?'' doc
             (extractLibPath doc
             (extractPath apiRoutePath ''Where should API routes be mounted?'' doc
             (extractAdditionalDetails doc
             (extractStackDetails doc
             (extractCustomerIdSource doc
             (extractCustomerModel doc
             (extractAuthLibrary doc
             (extractLanguage doc
             (extractFramework doc (defaults defaultPaths))))))))))))))))))"

section \<open>Analysing the pricing model\<close>

text \<open>
  Modelled from the spec: the enum \<open>FeatureType\<close> (of \<open>@/types\<close>) and the type
  \<open>SetupPricingModelInput\<close> (of \<open>@/utils/pricingModels/setupSchemas\<close>) are imported by the
  source and declared elsewhere. The specification gives the feature types toggle and
  usage-credit-grant, and a configuration of products with prices, features and usage
  meters. A property that may be \<open>undefined\<close> or \<open>null\<close> is a \<open>nullable\<close>.
\<close>

datatype FeatureType = Toggle | UsageCreditGrant

datatype 'a nullable = Undefined | Null | Value 'a

record Price =
  trialPeriodDays :: "int nullable"

record Product =
  productName :: string
  prices :: "Price list"

record Feature =
  featureType :: FeatureType
  featureSlug :: string

record UsageMeter =
  meterSlug :: string
  meterName :: string

record SetupPricingModelInput =
  products :: "Product list"
  features :: "Feature list"
  usageMeters :: "UsageMeter list"

record PricingModelAnalysis =
  hasTrials :: bool
  hasUsageMeters :: bool
  hasToggleFeatures :: bool

definition analyzePricingModel :: "SetupPricingModelInput \<Rightarrow> PricingModelAnalysis" where
  "analyzePricingModel pricingModelData =
     \<lparr> hasTrials =
         list_ex (\<lambda>product.
           list_ex (\<lambda>price. trialPeriodDays price \<noteq> Undefined \<and> trialPeriodDays price \<noteq> Null)
             (prices product))
           (products pricingModelData),
       hasUsageMeters = (length (usageMeters pricingModelData) > 0),
       hasToggleFeatures =
         list_ex (\<lambda>feature. featureType feature = Toggle) (features pricingModelData) \<rparr>"

text \<open>
  The three blocks of Markdown that \<open>constructPricingModelInstructions\<close> pushes are fixed
  texts with code units above 255 in them; they are taken as parameters.
\<close>

record SectionTexts =
  freeTrialsSection :: string
  usageBasedPricingSection :: string
  featureAccessSection :: string

definition constructPricingModelInstructions ::
    "SectionTexts \<Rightarrow> SetupPricingModelInput \<Rightarrow> PricingModelAnalysis \<Rightarrow> string" where
  "constructPricingModelInstructions texts pricingModelData analysis =
     joinWith [LF, LF]
       ((if hasTrials analysis then [freeTrialsSection texts] else [])
        @ (if hasUsageMeters analysis then [usageBasedPricingSection texts] else [])
        @ (if hasToggleFeatures analysis then [featureAccessSection texts] else []))"

section \<open>Resolving code snippets\<close>

text \<open>
  The snippet library is parsed JSON, typed \<open>any\<close>. Of the object that \<open>snippets\<close> refers
  to, \<open>resolveSnippets\<close> reads the properties \<open>base\<close> and \<open>frameworks\<close>; a property that is
  missing reads as \<open>undefined\<close>, here \<open>None\<close>. When \<open>base\<close> is there it is, as the casts of the
  source say, an object of objects of strings. The source indexes \<open>snippets.frameworks\<close>
  without a check, before it tests anything. Of a framework entry the three package names
  are read, and each may be missing. An object that the source iterates is the list of its
  \<open>Object.entries\<close>; an object that it builds is the map of its own properties.
\<close>

type_synonym FrameworkKey = ProjectStructure

record FrameworkEntry =
  serverPkg :: "string option"
  providerPkg :: "string option"
  billingHookPkg :: "string option"

record SnippetLibrary =
  base :: "(string \<times> (string \<times> string) list) list option"
  frameworks :: "(FrameworkKey \<rightharpoonup> FrameworkEntry) option"

fun removeFirst :: "string \<Rightarrow> string \<Rightarrow> string" where
  \<comment> \<open>\<open>s.replace(pattern, '')\<close> for a string pattern: the first occurrence goes\<close>
  "removeFirst pattern [] = []"
| "removeFirst pattern (c # cs) =
     (if prefix pattern (c # cs) then drop (length pattern) (c # cs)
      else c # removeFirst pattern cs)"

definition replacementText :: "string option \<Rightarrow> string" where
  \<comment> \<open>\<open>replace\<close> takes \<open>ToString\<close> of its second argument: \<open>undefined\<close> is inserted as that word\<close>
  "replacementText pkg = (case pkg of None \<Rightarrow> ''undefined'' | Some s \<Rightarrow> s)"

definition resolveTemplate :: "FrameworkEntry \<Rightarrow> string \<Rightarrow> string" where
  "resolveTemplate fw v =
     regexReplaceAll (lits ''{BILLING_HOOK_PKG}'') (replacementText (billingHookPkg fw))
       (regexReplaceAll (lits ''{PROVIDER_PKG}'') (replacementText (providerPkg fw))
         (regexReplaceAll (lits ''{SERVER_PKG}'') (replacementText (serverPkg fw)) v))"

text \<open>
  The objects that the source builds have \<open>Object.prototype\<close> as their prototype. An
  assignment to their property \<open>__proto__\<close> goes to the setter that they inherit: it makes
  no own property; it does nothing when the value assigned is a string, and it replaces
  the prototype when the value is an object. So \<open>resolved\<close> is the map of its own
  properties together with its prototype, \<open>None\<close> as long as that is \<open>Object.prototype\<close>.
\<close>

definition assignProperty :: "string \<Rightarrow> string \<Rightarrow> (string \<rightharpoonup> string) \<Rightarrow> (string \<rightharpoonup> string)" where
  \<comment> \<open>\<open>object[key] = v\<close> for a string \<open>v\<close>\<close>
  "assignProperty key v object = (if key = ''__proto__'' then object else object(key \<mapsto> v))"

fun resolveAuthSnippets ::
    "FrameworkEntry \<Rightarrow> (string \<times> string) list \<Rightarrow> (string \<rightharpoonup> string) \<Rightarrow> (string \<rightharpoonup> string)" where
  "resolveAuthSnippets fw [] resolvedAuth = resolvedAuth"
| "resolveAuthSnippets fw ((key, v) # entries) resolvedAuth =
     resolveAuthSnippets fw entries
       (if suffix ''Template'' key
        then assignProperty (removeFirst ''Template'' key) (resolveTemplate fw v) resolvedAuth
        else assignProperty key v resolvedAuth)"

record ResolvedSnippets =
  ownEntries :: "string \<rightharpoonup> (string \<rightharpoonup> string)"
  prototypeEntries :: "(string \<rightharpoonup> string) option"

text \<open>
  The outer loop runs on the two objects in reach: the library that \<open>snippets\<close> refers to
  and the object \<open>resolved\<close>. Every assignment of the source is to \<open>resolved\<close> or to an
  object made for it.
\<close>

record ResolverState =
  snippetsObject :: SnippetLibrary
  resolved :: ResolvedSnippets

fun resolveBase ::
    "FrameworkEntry \<Rightarrow> (string \<times> (string \<times> string) list) list \<Rightarrow> ResolverState \<Rightarrow> ResolverState" where
  "resolveBase fw [] st = st"
| "resolveBase fw ((authKey, authSnippets) # entries) st =
     resolveBase fw entries
       (let resolvedAuth = resolveAuthSnippets fw authSnippets Map.empty
        in if authKey = ''__proto__''
           then st\<lparr>resolved := (resolved st)\<lparr>prototypeEntries := Some resolvedAuth\<rparr>\<rparr>
           else st\<lparr>resolved := (resolved st)
                  \<lparr>ownEntries := (ownEntries (resolved st))(authKey \<mapsto> resolvedAuth)\<rparr>\<rparr>)"

datatype resolveResult = ThrowsTypeError | ReturnsNull | Returned ResolvedSnippets

text \<open>
  \<open>resolveSnippets\<close> gives what the call does, a \<open>TypeError\<close> thrown or a value returned, and
  the library object as it is when the call ends.
\<close>

definition resolveSnippets :: "SnippetLibrary \<Rightarrow> FrameworkKey \<Rightarrow> resolveResult \<times> SnippetLibrary" where
  "resolveSnippets snippets frameworkKey =
     (case frameworks snippets of
        None \<Rightarrow> (ThrowsTypeError, snippets)
      | Some fs \<Rightarrow>
          (case base snippets of
             None \<Rightarrow> (ReturnsNull, snippets)
           | Some b \<Rightarrow>
               (case fs frameworkKey of
                  None \<Rightarrow> (ReturnsNull, snippets)
                | Some fw \<Rightarrow>
                    (let st = resolveBase fw b
                         \<lparr> snippetsObject = snippets,
                           resolved = \<lparr> ownEntries = Map.empty, prototypeEntries = None \<rparr> \<rparr>
                     in (Returned (resolved st), snippetsObject st)))))"

definition outputName :: "string \<Rightarrow> string" where
  \<comment> \<open>the key that the source computes for an entry of the library\<close>
  "outputName key = (if suffix ''Template'' key then removeFirst ''Template'' key else key)"

text \<open>
  What the specification says of the names: an entry whose key ends in \<open>Template\<close> goes out
  under the key without that suffix, any other entry under its own key.
\<close>

definition strippedName :: "string \<Rightarrow> string" where
  "strippedName key = take (length key - length ''Template'') key"

definition emittedName :: "string \<Rightarrow> string" where
  "emittedName key = (if suffix ''Template'' key then strippedName key else key)"

definition plainKeys :: "(string \<times> string) list \<Rightarrow> bool" where
  \<comment> \<open>a key that ends in \<open>Template\<close> has \<open>Template\<close> nowhere else, no two entries go out
      under the same name, and no name is \<open>__proto__\<close>\<close>
  "plainKeys entries =
     (list_all (\<lambda>(key, v). (suffix ''Template'' key \<longrightarrow> \<not> sublist ''Template'' (butlast key))
                    \<and> emittedName key \<noteq> ''__proto__'') entries
      \<and> distinct (map (emittedName \<circ> fst) entries))"

definition frameworkMarkers :: "string list" where
  "frameworkMarkers = [''{SERVER_PKG}'', ''{PROVIDER_PKG}'', ''{BILLING_HOOK_PKG}'']"

definition plainPackages :: "FrameworkEntry \<Rightarrow> bool" where
  \<comment> \<open>no inserted package name has a dollar sign or can be part of an occurrence of a marker\<close>
  "plainPackages fw =
     list_all (\<lambda>pkg. plainValue pkg \<and> list_all (\<lambda>marker. \<not> completes pkg marker) frameworkMarkers)
       [replacementText (serverPkg fw), replacementText (providerPkg fw),
        replacementText (billingHookPkg fw)]"

definition emittedSnippet :: "SnippetLibrary \<Rightarrow> FrameworkKey \<Rightarrow> string \<Rightarrow> string \<Rightarrow> string option" where
  \<comment> \<open>the own property \<open>name\<close> of the own property \<open>authKey\<close> of the object returned, if there is one\<close>
  "emittedSnippet snippets frameworkKey authKey name =
     (case fst (resolveSnippets snippets frameworkKey) of
        Returned object \<Rightarrow>
          (case ownEntries object authKey of
             None \<Rightarrow> None
           | Some resolvedAuth \<Rightarrow> resolvedAuth name)
      | _ \<Rightarrow> None)"

section \<open>The setup-instructions operation\<close>

subsection \<open>Collaborators\<close>

text \<open>
  What the operation reads from outside: the environment variable, the files under the
  working directory, the database and the YAML library. A call that can throw has an
  \<open>outcome\<close>, \<open>Throws\<close> with the message of the error. \<open>buildTemplateReplacements\<close>
  only feeds the substitution, and no property below depends on the tokens it builds; it
  is taken as a function from its context to the token map, or to the error it throws
  on a library without the entries it reads.
\<close>

datatype 'a outcome = Throws string | Returns 'a

record FileEntry =
  path :: string
  content :: string

datatype PricingComponent =
  FeatureAccess | UsageBased | Subscription | OneTime | FreeTrial | FreeTrialByCredit | Discount

fun pricingComponentValue :: "PricingComponent \<Rightarrow> string" where
  "pricingComponentValue FeatureAccess = ''feature_access''"
| "pricingComponentValue UsageBased = ''usage_based''"
| "pricingComponentValue Subscription = ''subscription''"
| "pricingComponentValue OneTime = ''one_time''"
| "pricingComponentValue FreeTrial = ''free_trial_by_time''"
| "pricingComponentValue FreeTrialByCredit = ''free_trial_by_credit''"
| "pricingComponentValue Discount = ''discount''"

datatype TemplateReplacementContext =
  Context ExtractedCodebaseInfo "string option" "SetupPricingModelInput option"
    SnippetLibrary ProjectStructure string

record Collaborators =
  envMcpApiKey :: "string option"
  analysisPrompt :: "string outcome"
  fetchDefaultPricingModel :: "string \<Rightarrow> SetupPricingModelInput option outcome"
  yamlStringify :: "SetupPricingModelInput \<Rightarrow> string outcome"
  generationTemplate :: "string outcome"
  codeSnippets :: "SnippetLibrary outcome"
  buildTemplateReplacements :: "TemplateReplacementContext \<Rightarrow> (string \<times> string) list outcome"
  sectionTexts :: SectionTexts

record SetupArgs =
  fileContents :: "FileEntry list option"
  codebaseAnalysis :: "string option"
  manualProjectStructure :: "ProjectStructure option"
  pricingComponents :: "PricingComponent list"
  manualStackDetails :: "string option"
  manualAdditionalDetails :: "string option"

datatype failure = NoApiKeyProvided | Thrown string | UnmodelledPattern

datatype Step =
    AnalyzeCodebaseStep | ExtractCodebaseInfoStep | FetchPricingModelStep | YamlStringifyStep
  | AnalyzePricingModelStep | LoadGenerationTemplateStep | LoadCodeSnippetsStep
  | BuildTemplateReplacementsStep | ApplyTemplateReplacementsStep
  | ConstructPricingModelInstructionsStep

subsection \<open>Text helpers\<close>

definition lines :: "string list \<Rightarrow> string" where
  \<comment> \<open>the lines of a template literal\<close>
  "lines ls = joinWith [LF] ls"

definition truthy :: "string option \<Rightarrow> bool" where
  \<comment> \<open>a string or \<open>undefined\<close> in a condition: \<open>undefined\<close> and the empty string are falsy\<close>
  "truthy s = (case s of None \<Rightarrow> False | Some t \<Rightarrow> t \<noteq> [])"

definition digit :: "nat \<Rightarrow> char" where
  "digit d = ''0123456789'' ! d"

fun showNat :: "nat \<Rightarrow> string" where
  "showNat n = (if n < 10 then [digit n] else showNat (n div 10) @ [digit (n mod 10)])"

definition quoted :: "string \<Rightarrow> string" where
  "quoted s = [CHR 0x22] @ s @ [CHR 0x22]"

definition jsonStringify :: "PricingComponent list \<Rightarrow> string" where
  \<comment> \<open>\<open>JSON.stringify\<close> of an array of enum values, none of which needs an escape\<close>
  "jsonStringify components =
     ''['' @ joinWith '','' (map (quoted \<circ> pricingComponentValue) components) @ '']''"

subsection \<open>The analysis request\<close>

text \<open>
  \<open>analyzeCodebase\<close> as \<open>getSetupInstructions\<close> calls it, with an array of files; the branch
  for an argument that is not an array cannot be taken. Its own \<open>try\<close> turns a failure to
  read the prompt into a text. The result is the list of the texts of its \<open>content\<close>.
\<close>

definition noValidFilesText :: "FileEntry list \<Rightarrow> string" where
  "noValidFilesText files =
     lines
       [''{'',
        ''  '' @ quoted ''error'' @ '': '' @ quoted ''No valid files provided for analysis'' @ '','',
        ''  '' @ quoted ''message'' @ '': ''
           @ quoted ''Please provide files with both path and content properties.'' @ '','',
        ''  '' @ quoted ''received'' @ '': ''
           @ quoted (if length files = 0 then ''Empty array''
                     else showNat (length files)
                       @ '' file(s) provided, but none had valid path and content''),
        ''}'']"

definition fileContext :: "FileEntry \<Rightarrow> string" where
  "fileContext f = lines [''## File: '' @ path f, '''', ''```'', content f, ''```'']"

definition analyzeCodebase :: "Collaborators \<Rightarrow> FileEntry list \<Rightarrow> string option \<Rightarrow> string list" where
  "analyzeCodebase env files projectRoot =
     (let validFiles = filter (\<lambda>f. path f \<noteq> []) files in
      if length validFiles = 0 then [noValidFilesText files]
      else
        (case analysisPrompt env of
           Throws message \<Rightarrow> [''Error analyzing codebase: '' @ message]
         | Returns prompt \<Rightarrow>
             [lines
                [prompt, '''', ''---'', '''', ''# Codebase Files to Analyze'', '''',
                 (if truthy projectRoot
                  then ''**Project Root:** '' @ (case projectRoot of Some r \<Rightarrow> r | None \<Rightarrow> []) @ [LF, LF]
                  else [])
                   @ ''**Files Analyzed:** '' @ showNat (length validFiles),
                 '''', ''---'', '''',
                 joinWith ([LF, LF] @ ''---'' @ [LF, LF]) (map fileContext validFiles),
                 '''', ''---'', '''', ''# Your Task'', '''',
                 ''Please analyze the above codebase files according to the prompt above and create a comprehensive markdown document that covers all sections. The document should be complete and ready to be used as context for generating a Flowglad integration guide.'']]))"

subsection \<open>The operation\<close>

definition resolveBearerToken :: "Collaborators \<Rightarrow> string \<Rightarrow> failure + string" where
  "resolveBearerToken env apiKey =
     (let bearerToken =
            (if apiKey = [] \<or> trim apiKey = [] then
               (let fromEnv = (case envMcpApiKey env of None \<Rightarrow> [] | Some k \<Rightarrow> k)
                in if prefix ''Bearer '' fromEnv then trim (drop 7 fromEnv) else fromEnv)
             else apiKey)
      in if bearerToken = [] \<or> trim bearerToken = [] then Inl NoApiKeyProvided
         else Inr bearerToken)"

definition analysisRequired :: "SetupArgs \<Rightarrow> bool" where
  \<comment> \<open>\<open>fileContents && fileContents.length > 0 && !codebaseAnalysis\<close>\<close>
  "analysisRequired args =
     ((case fileContents args of None \<Rightarrow> False | Some files \<Rightarrow> length files > 0)
      \<and> \<not> truthy (codebaseAnalysis args))"


definition redirectText :: "PricingComponent list \<Rightarrow> string list \<Rightarrow> string" where
  "redirectText components analyzeTexts =
     lines
       [''# Codebase Analysis Required'',
        '''',
        ''Before generating setup instructions, please analyze the codebase first using the analyzeCodebase tool.'',
        '''',
        ''## Step 1: Analyze the Codebase'',
        '''',
        ''The analyzeCodebase tool has been called with your file contents. Please analyze the codebase according to the prompt and create a comprehensive markdown document.'',
        '''',
        ''## Step 2: Generate Setup Instructions'',
        '''',
        ''Once you have completed the codebase analysis and created the markdown document, call getSetupInstructions again with:'',
        ''- `codebaseAnalysis`: The complete markdown document from your analysis'',
        ''- `fileContents`: (same as before, optional)'',
        ''- `pricingComponents`: '' @ jsonStringify components,
        '''',
        ''---'',
        '''',
        ''## Analysis Request from analyzeCodebase:'',
        '''',
        joinWith [LF, LF] analyzeTexts]"

definition fetchPricingModel ::
    "Collaborators \<Rightarrow> string
      \<Rightarrow> Step list \<times> SetupPricingModelInput option \<times> string option \<times> PricingModelAnalysis option" where
  \<comment> \<open>the two nested \<open>try\<close> blocks: the steps run, then \<open>pricingModelData\<close>, \<open>pricingModelYAML\<close> and
      \<open>pricingModelAnalysis\<close>, \<open>null\<close> unless assigned\<close>
  "fetchPricingModel env resolvedApiKey =
     (case fetchDefaultPricingModel env resolvedApiKey of
        Throws message \<Rightarrow> ([FetchPricingModelStep], None, None, None)
      | Returns None \<Rightarrow> ([FetchPricingModelStep], None, None, None)
      | Returns (Some pricingModelData) \<Rightarrow>
          (case yamlStringify env pricingModelData of
             Throws message \<Rightarrow>
               ([FetchPricingModelStep, YamlStringifyStep], Some pricingModelData, None, None)
           | Returns yaml \<Rightarrow>
               ([FetchPricingModelStep, YamlStringifyStep, AnalyzePricingModelStep],
                Some pricingModelData, Some yaml, Some (analyzePricingModel pricingModelData))))"

definition orElse :: "string option \<Rightarrow> string \<Rightarrow> string" where
  \<comment> \<open>\<open>a || b\<close>\<close>
  "orElse a b = (case a of None \<Rightarrow> b | Some s \<Rightarrow> if s = [] then b else s)"

definition customizeInstructions ::
    "Collaborators \<Rightarrow> SetupArgs \<Rightarrow> ExtractedCodebaseInfo \<Rightarrow> SetupPricingModelInput option
      \<Rightarrow> Step list \<times> (failure + string)" where
  \<comment> \<open>from \<open>loadGenerationTemplate\<close> to the prepended analysis: the steps run and
      \<open>customizedInstructions\<close>, or the error thrown\<close>
  "customizeInstructions env args codebaseInfo pricingModelData =
     (let finalProjectStructure =
            (case manualProjectStructure args of
               Some p \<Rightarrow> p
             | None \<Rightarrow> (case projectStructure codebaseInfo of Some p \<Rightarrow> p | None \<Rightarrow> nextjs));
          finalStackDetails =
            orElse (manualStackDetails args)
              (orElse (stackDetails codebaseInfo) ''No stack details provided.'')
      in
      case generationTemplate env of
        Throws message \<Rightarrow> ([LoadGenerationTemplateStep], Inl (Thrown message))
      | Returns template \<Rightarrow>
          (case codeSnippets env of
             Throws message \<Rightarrow>
               ([LoadGenerationTemplateStep, LoadCodeSnippetsStep], Inl (Thrown message))
           | Returns snippets \<Rightarrow>
               (case buildTemplateReplacements env
                       (Context codebaseInfo (codebaseAnalysis args) pricingModelData snippets
                          finalProjectStructure finalStackDetails) of
                  Throws message \<Rightarrow>
                    ([LoadGenerationTemplateStep, LoadCodeSnippetsStep,
                      BuildTemplateReplacementsStep], Inl (Thrown message))
                | Returns templateReplacements \<Rightarrow>
                    (case applyTemplateReplacements template templateReplacements of
                       None \<Rightarrow>
                         ([LoadGenerationTemplateStep, LoadCodeSnippetsStep,
                           BuildTemplateReplacementsStep, ApplyTemplateReplacementsStep],
                          Inl UnmodelledPattern)
                     | Some customizedInstructions \<Rightarrow>
                         ([LoadGenerationTemplateStep, LoadCodeSnippetsStep,
                           BuildTemplateReplacementsStep, ApplyTemplateReplacementsStep],
                          Inr (if truthy (codebaseAnalysis args)
                               then lines
                                      [''# Codebase Analysis'', '''',
                                       (case codebaseAnalysis args of Some a \<Rightarrow> a | None \<Rightarrow> []),
                                       '''', ''---'', '''',
                                       ''# Flowglad Integration Instructions'', '''',
                                       customizedInstructions]
                               else customizedInstructions))))))"

definition noPricingModelStatus :: string where
  "noPricingModelStatus =
     ''No default pricing model found for your organization. You can set up your pricing model in the Flowglad dashboard.''"

definition yamlFailedStatus :: string where
  "yamlFailedStatus =
     ''Failed to generate YAML from pricing model data. Please check the console for errors.''"

definition analysisFailedStatus :: string where
  "analysisFailedStatus =
     ''Pricing model data was found but analysis failed. The YAML may be incomplete.''"

definition pricingModelStatus :: "SetupPricingModelInput option \<Rightarrow> string option \<Rightarrow> string" where
  "pricingModelStatus pricingModelData pricingModelYAML =
     (if pricingModelData = None then noPricingModelStatus
      else if pricingModelYAML = None then yamlFailedStatus
      else analysisFailedStatus)"

definition statusTail :: "string \<Rightarrow> string" where
  "statusTail status =
     lines
       ['''', '''', ''---'', '''', ''## Pricing Model Status'', '''', status, '''',
        ''To use pricing model-specific instructions, ensure you have:'',
        ''1. Created a default pricing model in your Flowglad organization'',
        ''2. Configured products, prices, features, and usage meters (if applicable)'',
        '''']"

definition pricingModelTail :: "string \<Rightarrow> string \<Rightarrow> string" where
  "pricingModelTail pricingModelYAML pricingModelInstructions =
     lines
       ['''', '''', ''# Pricing Model Configuration'', '''',
        ''Your organization'' @ [CHR 0x27]
          @ ''s default pricing model has been detected. Use the following configuration when setting up products and features:'',
        '''', ''```yaml'', pricingModelYAML, ''```'', '''',
        (if pricingModelInstructions \<noteq> [] then LF # pricingModelInstructions else []),
        '''']"

definition getSetupInstructions ::
    "Collaborators \<Rightarrow> string \<Rightarrow> SetupArgs \<Rightarrow> Step list \<times> (failure + string)" where
  "getSetupInstructions env apiKey args =
     (case resolveBearerToken env apiKey of
        Inl e \<Rightarrow> ([], Inl e)
      | Inr resolvedApiKey \<Rightarrow>
          if analysisRequired args then
            ([AnalyzeCodebaseStep],
             Inr (redirectText (pricingComponents args)
                    (analyzeCodebase env (case fileContents args of Some files \<Rightarrow> files | None \<Rightarrow> [])
                       None)))
          else
            (let codebaseInfo = extractCodebaseInfo (codebaseAnalysis args) Map.empty in
             case fetchPricingModel env resolvedApiKey of
               (fetchSteps, pricingModelData, pricingModelYAML, pricingModelAnalysis) \<Rightarrow>
                 (case customizeInstructions env args codebaseInfo pricingModelData of
                    (steps, Inl e) \<Rightarrow> (ExtractCodebaseInfoStep # fetchSteps @ steps, Inl e)
                  | (steps, Inr customizedInstructions) \<Rightarrow>
                      (case (pricingModelYAML, pricingModelData, pricingModelAnalysis) of
                         (Some yaml, Some d, Some analysis) \<Rightarrow>
                           if yaml \<noteq> [] then
                             (ExtractCodebaseInfoStep # fetchSteps @ steps
                                @ [ConstructPricingModelInstructionsStep],
                              Inr (customizedInstructions
                                     @ pricingModelTail yaml
                                         (constructPricingModelInstructions (sectionTexts env) d analysis)))
                           else
                             (ExtractCodebaseInfoStep # fetchSteps @ steps,
                              Inr (customizedInstructions
                                     @ statusTail (pricingModelStatus pricingModelData pricingModelYAML)))
                       | _ \<Rightarrow>
                           (ExtractCodebaseInfoStep # fetchSteps @ steps,
                            Inr (customizedInstructions
                                   @ statusTail (pricingModelStatus pricingModelData pricingModelYAML)))))))"


section \<open>Example documents\<close>

definition auth0Doc :: string where
  "auth0Doc = ''## 3. Authentication System'' @ [LF]
     @ ''What authentication library/system is used?'' @ [LF] @ ''- Auth0''"

definition firebaseDoc :: string where
  "firebaseDoc = ''## 3. Authentication System'' @ [LF]
     @ ''What authentication library/system is used?'' @ [LF] @ ''- Firebase''"

definition exampleLibrary :: SnippetLibrary where
  "exampleLibrary =
     \<lparr> base = Some [(''clerk'',
         [(''serverInitTemplate'', ''import { FlowgladServer } from '' @ [CHR 0x27] @ ''{SERVER_PKG}'' @ [CHR 0x27]),
          (''layoutProvider'', ''<FlowgladProvider>'')])],
       frameworks = Some [nextjs \<mapsto>
         \<lparr> serverPkg = Some ''@flowglad/nextjs/server'', providerPkg = Some ''@flowglad/nextjs'',
           billingHookPkg = None \<rparr>] \<rparr>"

definition oddLibrary :: SnippetLibrary where
  "oddLibrary =
     \<lparr> base = Some [(''clerk'', [(''serverInitTemplate'', ''import {SERVER_PKG}'')])],
       frameworks = Some [nextjs \<mapsto>
         \<lparr> serverPkg = Some ''$&'', providerPkg = Some ''@flowglad/nextjs'',
           billingHookPkg = Some ''@flowglad/nextjs'' \<rparr>] \<rparr>"

definition exampleEnv :: Collaborators where
  "exampleEnv =
     \<lparr> envMcpApiKey = None,
       analysisPrompt = Returns ''Analyze the codebase.'',
       fetchDefaultPricingModel = (\<lambda>k. Throws ''connection refused''),
       yamlStringify = (\<lambda>d. Throws ''not serializable''),
       generationTemplate = Returns ''Integrate Flowglad into {FRAMEWORK}.'',
       codeSnippets = Returns exampleLibrary,
       buildTemplateReplacements =
         (\<lambda>c. case c of Context info a d s p sd \<Rightarrow> Returns [(''{FRAMEWORK}'', framework info)]),
       sectionTexts =
         \<lparr> freeTrialsSection = ''## Free Trials'', usageBasedPricingSection = ''## Usage-Based Pricing'',
           featureAccessSection = ''## Feature Access (Toggle Features)'' \<rparr> \<rparr>"

definition exampleModel :: SetupPricingModelInput where
  "exampleModel =
     \<lparr> products = [\<lparr> productName = ''Pro'', prices = [\<lparr> trialPeriodDays = Null \<rparr>] \<rparr>],
       features = [\<lparr> featureType = Toggle, featureSlug = ''export'' \<rparr>],
       usageMeters = [] \<rparr>"

definition exampleArgs :: SetupArgs where
  "exampleArgs =
     \<lparr> fileContents = Some [\<lparr> path = ''package.json'', content = ''{}'' \<rparr>],
       codebaseAnalysis = None,
       manualProjectStructure = None,
       pricingComponents = [Subscription, FreeTrial],
       manualStackDetails = None,
       manualAdditionalDetails = None \<rparr>"

definition analysedArgs :: SetupArgs where
  "analysedArgs = exampleArgs\<lparr>codebaseAnalysis := Some ''The application uses Next.js.''\<rparr>"

definition envWithModel :: Collaborators where
  \<comment> \<open>a default pricing model is found, and \<open>yaml.stringify\<close> throws on it\<close>
  "envWithModel = exampleEnv\<lparr>fetchDefaultPricingModel := (\<lambda>k. Returns (Some exampleModel))\<rparr>"

definition envWithoutTemplate :: Collaborators where
  \<comment> \<open>the generation template cannot be read\<close>
  "envWithoutTemplate = exampleEnv\<lparr>generationTemplate := Throws ''ENOENT''\<rparr>"


section \<open>Properties of the template replacement\<close>

subsection \<open>Literal keys and plain values\<close>

lemma getSubstitution_plain: "plainValue v \<Longrightarrow> getSubstitution m pre post v = v"
  by (induction m pre post v rule: getSubstitution.induct) (auto simp: plainValue_def)

lemma compileKey_literal: "literalKey k \<Longrightarrow> compileKey k = Some (map Lit k)"
  by (induction k) (auto simp: literalKey_def)

lemma matchHere_lits:
  "matchHere False (map Lit k) s = (if prefix k s then Some ([], drop (length k) s) else None)"
proof (induction k arbitrary: s)
  case Nil
  show ?case by simp
next
  case (Cons a k)
  show ?case
  proof (cases s)
    case Nil
    then show ?thesis by simp
  next
    case (Cons c cs)
    with Cons.IH [of cs] show ?thesis by (simp add: charMatches_def)
  qed
qed

lemma regexReplaceAllFrom_literal:
  "plainValue v \<Longrightarrow> regexReplaceAllFrom (map Lit k) v pre s = replaceLiteral k v s"
proof (induction k v s arbitrary: pre rule: replaceLiteral.induct)
  case (1 k v)
  then show ?case by (simp add: matchHere_lits getSubstitution_plain)
next
  case (2 k v c cs)
  show ?case
  proof (cases "k = []")
    case True
    with 2 show ?thesis by (simp add: matchHere_lits getSubstitution_plain)
  next
    case False
    then have "0 < length k" by simp
    with 2 False show ?thesis
      by (simp add: matchHere_lits getSubstitution_plain)
  qed
qed

lemma replaceLiteral_absent: "\<not> sublist k s \<Longrightarrow> replaceLiteral k v s = s"
proof (induction k v s rule: replaceLiteral.induct)
  case (1 k v)
  then show ?case by auto
next
  case (2 k v c cs)
  from 2(4) have "k \<noteq> []" by auto
  moreover from 2(4) have "\<not> prefix k (c # cs)" "\<not> sublist k cs"
    by (auto simp: sublist_Cons_right)
  ultimately show ?case using 2 by simp
qed

lemma regexReplaceAllFrom_absent:
  "\<not> sublist k s \<Longrightarrow> regexReplaceAllFrom (map Lit k) v pre s = s"
proof (induction s arbitrary: pre)
  case Nil
  then show ?case by (auto simp: matchHere_lits)
next
  case (Cons c cs)
  then have "\<not> prefix k (c # cs)" "\<not> sublist k cs"
    by (auto simp: sublist_Cons_right)
  with Cons show ?case by (simp add: matchHere_lits)
qed

lemma applyTemplateReplacements_refines:
  "\<forall>(k, v) \<in> set reps. literalKey k \<and> plainValue v \<Longrightarrow>
   applyTemplateReplacements t reps = Some (substituteLiterally t reps)"
proof (induction reps arbitrary: t)
  case Nil
  show ?case by (simp add: substituteLiterally_def)
next
  case (Cons e reps)
  obtain k v where e: "e = (k, v)" by (cases e)
  with Cons.prems have kv: "literalKey k" "plainValue v" by auto
  from Cons.prems have "\<forall>(k, v) \<in> set reps. literalKey k \<and> plainValue v" by auto
  from Cons.IH [OF this] e kv show ?case
    by (simp add: compileKey_literal regexReplaceAll_def regexReplaceAllFrom_literal substituteLiterally_def)
qed

lemma applyTemplateReplacements_absent:
  "\<forall>(k, v) \<in> set reps. literalKey k \<and> \<not> sublist k t \<Longrightarrow>
   applyTemplateReplacements t reps = Some t"
proof (induction reps)
  case Nil
  show ?case by simp
next
  case (Cons e reps)
  obtain k v where e: "e = (k, v)" by (cases e)
  with Cons show ?case
    by (simp add: compileKey_literal regexReplaceAll_def regexReplaceAllFrom_absent)
qed

lemma not_completes_nonempty: "\<not> completes v k \<Longrightarrow> k \<noteq> [] \<and> v \<noteq> []"
  by (auto simp: completes_def)

lemma sublist_around:
  assumes c: "\<not> completes v k" and s: "sublist k (u @ v @ w)"
  shows "sublist k u \<or> sublist k w"
proof -
  from c have v: "v \<noteq> []" and kv: "\<not> sublist k v" and vk: "\<not> sublist v k"
    and pre: "\<And>p. p \<noteq> [] \<Longrightarrow> prefix p v \<Longrightarrow> \<not> suffix p k"
    and suf: "\<And>s. s \<noteq> [] \<Longrightarrow> suffix s v \<Longrightarrow> \<not> prefix s k"
    by (auto simp: completes_def list_ex_iff)
  from s consider "sublist k u" | "sublist k (v @ w)"
    | x1 x2 where "k = x1 @ x2" "suffix x1 u" "prefix x2 (v @ w)"
    unfolding sublist_append [of k u] by blast
  then show ?thesis
  proof cases
    case 1
    then show ?thesis by blast
  next
    case 2
    then consider "sublist k v" | "sublist k w"
      | x1 x2 where "k = x1 @ x2" "suffix x1 v" "prefix x2 w"
      unfolding sublist_append [of k v] by blast
    then show ?thesis
    proof cases
      case 1
      with kv show ?thesis by blast
    next
      case 2
      then show ?thesis by blast
    next
      case (3 x1 x2)
      show ?thesis
      proof (cases "x1 = []")
        case True
        with 3 have "prefix k w" by simp
        then show ?thesis by (blast intro: prefix_imp_sublist)
      next
        case False
        from 3(1) have "prefix x1 k" by simp
        with suf [OF False 3(2)] show ?thesis by blast
      qed
    qed
  next
    case (3 x1 x2)
    show ?thesis
    proof (cases "x2 = []")
      case True
      with 3 have "suffix k u" by simp
      then show ?thesis by (blast intro: suffix_imp_sublist)
    next
      case False
      from 3(3) consider "prefix x2 v" | us where "x2 = v @ us"
        unfolding prefix_append by blast
      then show ?thesis
      proof cases
        case 1
        from 3(1) have "suffix x2 k" by (simp add: suffix_def)
        with pre [OF False 1] show ?thesis by blast
      next
        case 2
        with 3(1) have "k = x1 @ v @ us" by simp
        then have "sublist v k" by (simp only: sublist_appendI)
        with vk show ?thesis by blast
      qed
    qed
  qed
qed

lemma sublist_replaceLiteral_ctx:
  "k \<noteq> [] \<Longrightarrow> \<not> completes v k' \<Longrightarrow> sublist k' (u @ replaceLiteral k v s) \<Longrightarrow> sublist k' (u @ s)"
proof (induction k v s arbitrary: u rule: replaceLiteral.induct)
  case (1 k v)
  then show ?case by simp
next
  case (2 k v c cs)
  note k = "2.prems"(1) and nc = "2.prems"(2) and p = "2.prems"(3)
  show ?case
  proof (cases "prefix k (c # cs)")
    case True
    let ?rest = "drop (length k) (c # cs)"
    from k True p have "sublist k' (u @ v @ replaceLiteral k v ?rest)" by simp
    then consider "sublist k' u" | "sublist k' (replaceLiteral k v ?rest)"
      using sublist_around [OF nc] by blast
    then show ?thesis
    proof cases
      case 1
      then show ?thesis unfolding sublist_append [of k' u] by blast
    next
      case 2
      then have "sublist k' ([] @ replaceLiteral k v ?rest)" by simp
      then have "sublist k' ([] @ ?rest)" by (rule "2.IH"(2) [OF k True k nc])
      then have "sublist k' ?rest" by simp
      moreover have "sublist ?rest (c # cs)" by (rule sublist_drop)
      ultimately have "sublist k' (c # cs)" by (rule sublist_order.order_trans)
      then show ?thesis unfolding sublist_append [of k' u] by blast
    qed
  next
    case False
    with k p have "sublist k' ((u @ [c]) @ replaceLiteral k v cs)" by simp
    then have "sublist k' ((u @ [c]) @ cs)" by (rule "2.IH"(3) [OF k False k nc])
    then show ?thesis by simp
  qed
qed

lemma sublist_replaceLiteral:
  "k \<noteq> [] \<Longrightarrow> \<not> completes v k' \<Longrightarrow> sublist k' (replaceLiteral k v s) \<Longrightarrow> sublist k' s"
  using sublist_replaceLiteral_ctx [of k v k' "[]" s] by simp

lemma replaceLiteral_removes_ctx:
  "\<not> completes v k \<Longrightarrow> sublist k (u @ replaceLiteral k v s) \<Longrightarrow> sublist k (u @ take (length k - 1) s)"
proof (induction k v s arbitrary: u rule: replaceLiteral.induct)
  case (1 k v)
  from "1.prems"(1) have "k \<noteq> []" by (auto simp: completes_def)
  with "1.prems"(2) show ?case by simp
next
  case (2 k v c cs)
  note nc = "2.prems"(1) and p = "2.prems"(2)
  from nc have k: "k \<noteq> []" by (auto simp: completes_def)
  show ?case
  proof (cases "prefix k (c # cs)")
    case True
    let ?rest = "drop (length k) (c # cs)"
    from k True p have "sublist k (u @ v @ replaceLiteral k v ?rest)" by simp
    then consider "sublist k u" | "sublist k (replaceLiteral k v ?rest)"
      using sublist_around [OF nc] by blast
    then show ?thesis
    proof cases
      case 1
      then show ?thesis unfolding sublist_append [of k u] by blast
    next
      case 2
      then have "sublist k ([] @ replaceLiteral k v ?rest)" by simp
      then have "sublist k ([] @ take (length k - 1) ?rest)" by (rule "2.IH"(2) [OF k True nc])
      then have "length k \<le> length (take (length k - 1) ?rest)"
        using sublist_length_le by fastforce
      with k show ?thesis by (cases k) auto
    qed
  next
    case False
    with k p have "sublist k ((u @ [c]) @ replaceLiteral k v cs)" by simp
    then have a: "sublist k ((u @ [c]) @ take (length k - 1) cs)" by (rule "2.IH"(3) [OF k False nc])
    have e: "(u @ [c]) @ take (length k - 1) cs = u @ take (length k) (c # cs)"
      using k by (cases k) auto
    show ?thesis
    proof (cases "length k \<le> length (c # cs)")
      case False
      then have "take (length k) (c # cs) = take (length k - 1) (c # cs)" by simp
      with a e show ?thesis by simp
    next
      case True
      define w where "w = take (length k - 1) (c # cs)"
      define x where "x = (c # cs) ! (length k - 1)"
      from True k have t: "take (length k) (c # cs) = w @ [x]"
        unfolding w_def x_def
        by (metis One_nat_def Suc_pred length_greater_0_conv less_le_trans lessI take_Suc_conv_app_nth not_less not_less_eq_eq)
      from a e t have "sublist k ((u @ w) @ [x])" by simp
      then consider "suffix k ((u @ w) @ [x])" | "sublist k (u @ w)"
        unfolding sublist_snoc by blast
      then show ?thesis
      proof cases
        case 2
        then show ?thesis by (simp add: w_def)
      next
        case 1
        then have "suffix k (u @ take (length k) (c # cs))" using t by simp
        moreover have "length (take (length k) (c # cs)) = length k" using True by simp
        ultimately have "k = take (length k) (c # cs)"
          by (metis suffix_def append_eq_append_conv)
        then have "prefix k (c # cs)" by (metis take_is_prefix)
        with False show ?thesis by blast
      qed
    qed
  qed
qed

lemma replaceLiteral_removes:
  "\<not> completes v k \<Longrightarrow> \<not> sublist k (replaceLiteral k v s)"
proof
  assume nc: "\<not> completes v k" and s: "sublist k (replaceLiteral k v s)"
  from nc have k: "k \<noteq> []" by (auto simp: completes_def)
  from s have "sublist k ([] @ replaceLiteral k v s)" by simp
  then have "sublist k ([] @ take (length k - 1) s)" by (rule replaceLiteral_removes_ctx [OF nc])
  then have "length k \<le> length (take (length k - 1) s)"
    using sublist_length_le by fastforce
  with k show False by (cases k) auto
qed


lemma substituteLiterally_absent:
  "\<forall>(k, v) \<in> set reps. \<not> sublist k r \<Longrightarrow> substituteLiterally r reps = r"
  by (induction reps) (auto simp: substituteLiterally_def replaceLiteral_absent)

lemma substituteLiterally_Cons:
  "substituteLiterally t ((k, v) # reps) = substituteLiterally (replaceLiteral k v t) reps"
  by (simp add: substituteLiterally_def)

lemma substituteLiterally_keys_absent:
  "\<forall>(k, v) \<in> set reps. \<forall>k' \<in> K \<union> fst ` set reps. \<not> completes v k' \<Longrightarrow>
   \<forall>k' \<in> K. \<not> sublist k' t \<Longrightarrow>
   \<forall>k' \<in> K \<union> fst ` set reps. \<not> sublist k' (substituteLiterally t reps)"
proof (induction reps arbitrary: t K)
  case Nil
  then show ?case by (simp add: substituteLiterally_def)
next
  case (Cons e reps)
  obtain k v where e: "e = (k, v)" by (cases e)
  let ?t = "replaceLiteral k v t"
  let ?K = "insert k K"
  have mem: "(k, v) \<in> set (e # reps)" unfolding e by simp
  have h: "\<forall>k' \<in> K \<union> fst ` set (e # reps). \<not> completes v k'"
    by (rule bspec [OF Cons.prems(1) mem, unfolded prod.case])
  have kin: "k \<in> K \<union> fst ` set (e # reps)" unfolding e by simp
  from h kin have vk: "\<not> completes v k" by blast
  then have k: "k \<noteq> []" using not_completes_nonempty by blast
  from h have vK: "\<forall>k' \<in> K. \<not> completes v k'" by blast
  have sub: "?K \<union> fst ` set reps \<subseteq> K \<union> fst ` set (e # reps)" unfolding e by auto
  have a: "\<forall>(k, v) \<in> set reps. \<forall>k' \<in> ?K \<union> fst ` set reps. \<not> completes v k'"
  proof (rule ballI, rule case_prodI2)
    fix p k1 v1 assume m: "p \<in> set reps" and p: "p = (k1, v1)"
    then have m1: "(k1, v1) \<in> set (e # reps)" by simp
    have h1: "\<forall>k' \<in> K \<union> fst ` set (e # reps). \<not> completes v1 k'"
      by (rule bspec [OF Cons.prems(1) m1, unfolded prod.case])
    with sub show "\<forall>k' \<in> ?K \<union> fst ` set reps. \<not> completes v1 k'"
      by blast
  qed
  have b: "\<forall>k' \<in> ?K. \<not> sublist k' ?t"
  proof
    fix k' assume "k' \<in> ?K"
    then consider "k' = k" | "k' \<in> K" by auto
    then show "\<not> sublist k' ?t"
    proof cases
      case 1
      with replaceLiteral_removes [OF vk] show ?thesis by blast
    next
      case 2
      with Cons.prems(2) have ns: "\<not> sublist k' t" by blast
      from 2 vK have d: "\<not> completes v k'" by blast
      from ns sublist_replaceLiteral [OF k d] show ?thesis by blast
    qed
  qed
  have "\<forall>k' \<in> ?K \<union> fst ` set reps. \<not> sublist k' (substituteLiterally ?t reps)"
    by (rule Cons.IH [OF a b])
  moreover have "K \<union> fst ` set (e # reps) = ?K \<union> fst ` set reps"
    unfolding e by auto
  ultimately show ?case unfolding e substituteLiterally_Cons by (simp only:)
qed

lemma substituteLiterally_removes_keys:
  assumes "boundaryFree reps"
  shows "\<forall>(k, v) \<in> set reps. \<not> sublist k (substituteLiterally t reps)"
proof -
  from assms have bf: "\<forall>(k, v) \<in> set reps. \<forall>(k', v') \<in> set reps. \<not> completes v k'"
    by (simp add: boundaryFree_def list_all_iff)
  have a: "\<forall>(k, v) \<in> set reps. \<forall>k' \<in> {} \<union> fst ` set reps. \<not> completes v k'"
  proof (rule ballI, rule case_prodI2)
    fix p k v assume m: "p \<in> set reps" and p: "p = (k, v)"
    then have m1: "(k, v) \<in> set reps" by simp
    have h: "\<forall>(k', v') \<in> set reps. \<not> completes v k'"
      by (rule bspec [OF bf m1, unfolded prod.case])
    show "\<forall>k' \<in> {} \<union> fst ` set reps. \<not> completes v k'"
    proof
      fix k' assume "k' \<in> {} \<union> fst ` set reps"
      then obtain v' where "(k', v') \<in> set reps" by auto
      with h show "\<not> completes v k'" by blast
    qed
  qed
  have b: "\<forall>k' \<in> {}. \<not> sublist k' t" by simp
  have "\<forall>k' \<in> {} \<union> fst ` set reps. \<not> sublist k' (substituteLiterally t reps)"
    by (rule substituteLiterally_keys_absent [OF a b])
  then show ?thesis by force
qed

lemma replaceLiteral_occurrence:
  "k \<noteq> [] \<Longrightarrow> \<not> sublist k (a @ butlast k) \<Longrightarrow>
   replaceLiteral k v (a @ k @ b) = a @ v @ replaceLiteral k v b"
proof (induction a)
  case Nil
  then show ?case by (cases k) auto
next
  case (Cons x a)
  have np: "\<not> prefix k (x # a @ k @ b)"
  proof
    assume "prefix k (x # a @ k @ b)"
    then have "k = take (length k) ((x # a) @ k @ b)"
      by (metis append_Cons append_eq_conv_conj prefix_def)
    also have "\<dots> = take (length k) (((x # a) @ butlast k) @ ([last k] @ b))"
      using Cons.prems(1) append_butlast_last_id [of k] by (metis append_assoc)
    also have "\<dots> = take (length k) ((x # a) @ butlast k)"
    proof -
      have "length k \<le> length ((x # a) @ butlast k)" by simp
      then have "length k - length ((x # a) @ butlast k) = 0" by (rule diff_is_0_eq')
      then show ?thesis unfolding take_append by simp
    qed
    finally have "prefix k ((x # a) @ butlast k)"
      by (metis take_is_prefix)
    with Cons.prems(2) show False by auto
  qed
  from Cons.prems(2) have "\<not> sublist k (a @ butlast k)"
    by (auto simp: sublist_Cons_right)
  with Cons np show ?case by simp
qed

section \<open>Properties of the string functions\<close>

subsection \<open>Letters by code unit\<close>

lemma canonicalize_code_unit:
  "canonicalize c =
     (let n = (of_char c :: nat) in
      if (97 \<le> n \<and> n \<le> 122) \<or> (224 \<le> n \<and> n \<le> 254 \<and> n \<noteq> 247) then char_of (n - 32) else c)"
  by (cases c) (simp add: letterIndex_def Let_def char_of_def bit_Suc_0_iff)

lemma toLowerChar_code_unit:
  "toLowerChar c =
     (let n = (of_char c :: nat) in
      if (65 \<le> n \<and> n \<le> 90) \<or> (192 \<le> n \<and> n \<le> 222 \<and> n \<noteq> 215) then char_of (n + 32) else c)"
  by (cases c) (simp add: letterIndex_def Let_def char_of_def bit_Suc_0_iff)

subsection \<open>Occurrences and positions\<close>

lemma stringIncludes_sublist: "stringIncludes s n \<longleftrightarrow> sublist n s"
  by (induction s) (auto simp: sublist_Cons_right)

lemma indexOfFrom_absent: "0 \<le> i \<Longrightarrow> indexOfFrom s n i = - 1 \<longleftrightarrow> \<not> sublist n s"
proof (induction s arbitrary: i)
  case Nil
  then show ?case by auto
next
  case (Cons c cs)
  from Cons.prems have "0 \<le> i + 1" by simp
  from Cons.IH [OF this] Cons.prems show ?case
    by (auto simp: sublist_Cons_right)
qed

lemma indexOf_absent: "indexOf s n = - 1 \<longleftrightarrow> \<not> sublist n s"
  unfolding indexOf_def by (rule indexOfFrom_absent) simp

lemma indexOfFrom_bounds: "indexOfFrom s n i = - 1 \<or> i \<le> indexOfFrom s n i"
proof (induction s arbitrary: i)
  case Nil
  show ?case by simp
next
  case (Cons c cs)
  from Cons.IH [of "i + 1"] show ?case by auto
qed

lemma indexOfFrom_position:
  "0 \<le> i \<Longrightarrow> indexOfFrom s n i = i + int k \<Longrightarrow>
   prefix n (drop k s) \<and> (\<forall>j < k. \<not> prefix n (drop j s))"
proof (induction s arbitrary: i k)
  case Nil
  then show ?case by (auto split: if_splits)
next
  case (Cons c cs)
  show ?case
  proof (cases "prefix n (c # cs)")
    case True
    with Cons.prems have "k = 0" by simp
    with True show ?thesis by simp
  next
    case False
    with Cons.prems have e: "indexOfFrom cs n (i + 1) = i + int k" by simp
    from indexOfFrom_bounds [of cs n "i + 1"] e Cons.prems(1) have "k \<noteq> 0" by auto
    then obtain k' where k: "k = Suc k'" by (cases k) auto
    with e have e': "indexOfFrom cs n (i + 1) = (i + 1) + int k'" by simp
    from Cons.prems(1) have "0 \<le> i + 1" by simp
    from Cons.IH [OF this e'] have ih: "prefix n (drop k' cs)" "\<forall>j < k'. \<not> prefix n (drop j cs)" by auto
    show ?thesis
    proof (intro conjI allI impI)
      show "prefix n (drop k (c # cs))" using ih k by simp
    next
      fix j assume "j < k"
      show "\<not> prefix n (drop j (c # cs))"
      proof (cases j)
        case 0
        with False show ?thesis by simp
      next
        case (Suc j')
        with \<open>j < k\<close> k ih show ?thesis by simp
      qed
    qed
  qed
qed

lemma indexOf_position:
  "indexOf s n = int k \<Longrightarrow> prefix n (drop k s) \<and> (\<forall>j < k. \<not> prefix n (drop j s))"
  unfolding indexOf_def using indexOfFrom_position [of 0 s n k] by simp

lemma indexOf_first_occurrence:
  assumes "sublist n s"
  shows "\<exists>k. indexOf s n = int k \<and> prefix n (drop k s) \<and> (\<forall>j < k. \<not> prefix n (drop j s))"
proof -
  from assms have "indexOf s n \<noteq> - 1" by (simp add: indexOf_absent)
  with indexOfFrom_bounds [of s n 0] have "0 \<le> indexOf s n" by (simp add: indexOf_def)
  then obtain k where k: "indexOf s n = int k" by (metis nonneg_int_cases)
  with indexOf_position [OF k] show ?thesis by blast
qed


section \<open>Properties of the fact extractor\<close>

subsection \<open>Fields that a step leaves alone\<close>

lemma dom_builtinFilePaths: "dom builtinFilePaths = UNIV"
proof -
  have "builtinFilePaths r \<noteq> None" for r
    by (cases r) (simp_all add: builtinFilePaths_def)
  then show ?thesis by auto
qed

lemma dom_defaults: "dom (filePaths (defaults defaultPaths)) = UNIV"
  by (simp add: defaults_def dom_builtinFilePaths)

lemma dom_extractPath:
  "dom (filePaths info) = UNIV \<Longrightarrow> dom (filePaths (extractPath role q doc info)) = UNIV"
  by (simp add: extractPath_def split: option.split prod.split)

lemma dom_extractLibPath:
  "dom (filePaths info) = UNIV \<Longrightarrow> dom (filePaths (extractLibPath doc info)) = UNIV"
  by (simp add: extractLibPath_def split: option.split prod.split)

lemma filePaths_steps:
  "filePaths (extractFramework doc info) = filePaths info"
  "filePaths (extractLanguage doc info) = filePaths info"
  "filePaths (extractAuthLibrary doc info) = filePaths info"
  "filePaths (extractCustomerModel doc info) = filePaths info"
  "filePaths (extractCustomerIdSource doc info) = filePaths info"
  "filePaths (extractStackDetails doc info) = filePaths info"
  "filePaths (extractAdditionalDetails doc info) = filePaths info"
  by (simp_all add: extractFramework_def extractLanguage_def extractAuthLibrary_def
      extractCustomerModel_def extractCustomerIdSource_def extractStackDetails_def
      extractAdditionalDetails_def Let_def split: option.split prod.split)

lemma customerModel_steps:
  "customerModel (extractFramework doc info) = customerModel info"
  "customerModel (extractLanguage doc info) = customerModel info"
  "customerModel (extractAuthLibrary doc info) = customerModel info"
  "customerModel (extractCustomerIdSource doc info) = customerModel info"
  "customerModel (extractStackDetails doc info) = customerModel info"
  "customerModel (extractAdditionalDetails doc info) = customerModel info"
  "customerModel (extractPath role q doc info) = customerModel info"
  "customerModel (extractLibPath doc info) = customerModel info"
  by (simp_all add: extractFramework_def extractLanguage_def extractAuthLibrary_def
      extractCustomerIdSource_def extractStackDetails_def extractPath_def extractLibPath_def
      extractAdditionalDetails_def Let_def split: option.split prod.split)

lemma authLibrary_steps:
  "authLibrary (extractFramework doc info) = authLibrary info"
  "authLibrary (extractLanguage doc info) = authLibrary info"
  "authLibrary (extractCustomerModel doc info) = authLibrary info"
  "authLibrary (extractCustomerIdSource doc info) = authLibrary info"
  "authLibrary (extractStackDetails doc info) = authLibrary info"
  "authLibrary (extractAdditionalDetails doc info) = authLibrary info"
  "authLibrary (extractPath role q doc info) = authLibrary info"
  "authLibrary (extractLibPath doc info) = authLibrary info"
  by (simp_all add: extractFramework_def extractLanguage_def extractCustomerModel_def
      extractCustomerIdSource_def extractStackDetails_def extractPath_def extractLibPath_def
      extractAdditionalDetails_def Let_def split: option.split prod.split)

lemma customerModel_extractCodebaseInfo:
  "doc \<noteq> [] \<Longrightarrow>
   customerModel (extractCodebaseInfo (Some doc) defaultPaths)
     = customerModel (extractCustomerModel doc (defaults defaultPaths))"
  by (simp add: extractCodebaseInfo_def customerModel_steps extractCustomerModel_def Let_def)

lemma authLibrary_extractCodebaseInfo:
  "doc \<noteq> [] \<Longrightarrow>
   authLibrary (extractCodebaseInfo (Some doc) defaultPaths)
     = authLibrary (extractAuthLibrary doc (defaults defaultPaths))"
  by (simp add: extractCodebaseInfo_def authLibrary_steps extractAuthLibrary_def Let_def
      split: option.split prod.split)

lemma dom_filePaths_extractCodebaseInfo:
  "dom (filePaths (extractCodebaseInfo document defaultPaths)) = UNIV"
  by (simp add: extractCodebaseInfo_def dom_defaults dom_extractPath dom_extractLibPath
      filePaths_steps split: option.split)

lemma defined_defaults:
  "defaultPaths role \<noteq> Some None \<Longrightarrow> \<exists>p. filePaths (defaults defaultPaths) role = Some (Some p)"
  by (cases role; cases "defaultPaths role")
     (auto simp: defaults_def builtinFilePaths_def map_add_def)

lemma defined_extractPath:
  "\<exists>p. filePaths info role = Some (Some p) \<Longrightarrow>
   \<exists>p. filePaths (extractPath r q doc info) role = Some (Some p)"
  by (simp add: extractPath_def split: option.split prod.split)

lemma defined_extractLibPath:
  "\<exists>p. filePaths info role = Some (Some p) \<Longrightarrow>
   \<exists>p. filePaths (extractLibPath doc info) role = Some (Some p)"
  by (simp add: extractLibPath_def split: option.split prod.split)

lemma defined_filePaths_extractCodebaseInfo:
  assumes "defaultPaths role \<noteq> Some None"
  shows "\<exists>p. filePaths (extractCodebaseInfo document defaultPaths) role = Some (Some p)"
proof -
  have d: "\<exists>p. filePaths (defaults defaultPaths) role = Some (Some p)"
    using assms by (rule defined_defaults [of defaultPaths role])
  show ?thesis
  proof (cases document)
    case None
    with d show ?thesis by (simp add: extractCodebaseInfo_def)
  next
    case (Some doc)
    show ?thesis
    proof (cases "doc = []")
      case True
      with Some d show ?thesis by (simp add: extractCodebaseInfo_def)
    next
      case False
      from d have "\<exists>p. filePaths (extractFramework doc (defaults defaultPaths)) role = Some (Some p)"
        by (simp only: filePaths_steps)
      then have "\<exists>p. filePaths (extractLanguage doc (extractFramework doc (defaults defaultPaths))) role = Some (Some p)"
        by (simp only: filePaths_steps)
      then have "\<exists>p. filePaths (extractAdditionalDetails doc (extractStackDetails doc
          (extractCustomerIdSource doc (extractCustomerModel doc (extractAuthLibrary doc
          (extractLanguage doc (extractFramework doc (defaults defaultPaths)))))))) role = Some (Some p)"
        by (simp only: filePaths_steps)
      with Some False show ?thesis
        unfolding extractCodebaseInfo_def
        by (simp only: option.case if_False)
           (intro defined_extractPath defined_extractLibPath)
    qed
  qed
qed

section \<open>Properties of the snippet resolver\<close>

lemma lits_replace:
  "plainValue v \<Longrightarrow> regexReplaceAll (lits k) v s = replaceLiteral k v s"
  by (simp add: regexReplaceAll_def lits_def regexReplaceAllFrom_literal)

lemma removeFirst_occurrence:
  "k \<noteq> [] \<Longrightarrow> \<not> sublist k (a @ butlast k) \<Longrightarrow> removeFirst k (a @ k @ b) = a @ b"
proof (induction a)
  case Nil
  then show ?case by (cases k) auto
next
  case (Cons x a)
  have np: "\<not> prefix k (x # a @ k @ b)"
  proof
    assume "prefix k (x # a @ k @ b)"
    then have "k = take (length k) ((x # a) @ k @ b)"
      by (metis append_Cons append_eq_conv_conj prefix_def)
    also have "\<dots> = take (length k) (((x # a) @ butlast k) @ ([last k] @ b))"
      using Cons.prems(1) append_butlast_last_id [of k] by (metis append_assoc)
    also have "\<dots> = take (length k) ((x # a) @ butlast k)"
    proof -
      have "length k \<le> length ((x # a) @ butlast k)" by simp
      then have "length k - length ((x # a) @ butlast k) = 0" by (rule diff_is_0_eq')
      then show ?thesis unfolding take_append by simp
    qed
    finally have "prefix k ((x # a) @ butlast k)"
      by (metis take_is_prefix)
    with Cons.prems(2) show False by auto
  qed
  from Cons.prems(2) have "\<not> sublist k (a @ butlast k)"
    by (auto simp: sublist_Cons_right)
  with Cons np show ?case by simp
qed

lemma outputName_suffix:
  assumes "suffix ''Template'' key" and "\<not> sublist ''Template'' (butlast key)"
  shows "outputName key = strippedName key"
proof -
  from assms(1) obtain a where key: "key = a @ ''Template''" by (auto simp: suffix_def)
  then have "butlast key = a @ butlast ''Template''" by (simp add: butlast_append)
  with assms(2) have n: "\<not> sublist ''Template'' (a @ butlast ''Template'')" by simp
  have "removeFirst ''Template'' (a @ ''Template'' @ []) = a @ []"
    by (rule removeFirst_occurrence [OF _ n]) simp
  then have "removeFirst ''Template'' key = a" unfolding key by simp
  moreover have "strippedName key = a" unfolding key strippedName_def by simp
  ultimately show ?thesis using assms(1) by (simp add: outputName_def)
qed

lemma outputName_emittedName:
  "(suffix ''Template'' key \<longrightarrow> \<not> sublist ''Template'' (butlast key)) \<Longrightarrow>
   outputName key = emittedName key"
  using outputName_suffix [of key] by (auto simp: emittedName_def outputName_def)

lemma plainKeys_outputName:
  assumes "plainKeys entries"
  shows "distinct (map (outputName \<circ> fst) entries)"
    and "\<forall>(key, v) \<in> set entries. outputName key = emittedName key \<and> outputName key \<noteq> ''__proto__''"
proof -
  from assms have a: "\<forall>(key, v) \<in> set entries.
      (suffix ''Template'' key \<longrightarrow> \<not> sublist ''Template'' (butlast key)) \<and> emittedName key \<noteq> ''__proto__''"
    and d: "distinct (map (emittedName \<circ> fst) entries)"
    by (simp_all add: plainKeys_def list_all_iff)
  from a have e: "\<forall>(key, v) \<in> set entries. outputName key = emittedName key"
    using outputName_emittedName by fastforce
  then have "\<forall>x \<in> set entries. (outputName \<circ> fst) x = (emittedName \<circ> fst) x" by auto
  then have m: "map (outputName \<circ> fst) entries = map (emittedName \<circ> fst) entries"
    unfolding map_eq_conv .
  show "distinct (map (outputName \<circ> fst) entries)" unfolding m by (rule d)
  from a e show "\<forall>(key, v) \<in> set entries. outputName key = emittedName key \<and> outputName key \<noteq> ''__proto__''"
    by fastforce
qed

lemma resolveAuthSnippets_other:
  "name \<notin> outputName ` fst ` set entries \<Longrightarrow> resolveAuthSnippets fw entries acc name = acc name"
proof (induction entries arbitrary: acc)
  case Nil
  show ?case by simp
next
  case (Cons e entries)
  obtain key v where e: "e = (key, v)" by (cases e)
  from Cons.prems e have a: "name \<noteq> outputName key" and b: "name \<notin> outputName ` fst ` set entries"
    by auto
  let ?acc = "if suffix ''Template'' key
        then assignProperty (removeFirst ''Template'' key) (resolveTemplate fw v) acc
        else assignProperty key v acc"
  from a have "?acc name = acc name" by (auto simp: outputName_def assignProperty_def)
  moreover have "resolveAuthSnippets fw (e # entries) acc name = resolveAuthSnippets fw entries ?acc name"
    unfolding e by simp
  ultimately show ?case using Cons.IH [OF b, of ?acc] by simp
qed

lemma resolveAuthSnippets_entry:
  "distinct (map (outputName \<circ> fst) entries) \<Longrightarrow> (key, v) \<in> set entries \<Longrightarrow>
   outputName key \<noteq> ''__proto__'' \<Longrightarrow>
   resolveAuthSnippets fw entries acc (outputName key)
     = Some (if suffix ''Template'' key then resolveTemplate fw v else v)"
proof (induction entries arbitrary: acc)
  case Nil
  then show ?case by simp
next
  case (Cons e entries)
  obtain key' v' where e: "e = (key', v')" by (cases e)
  from Cons.prems(1) e have d: "distinct (map (outputName \<circ> fst) entries)"
    and n: "outputName key' \<notin> outputName ` fst ` set entries" by (auto simp: comp_def)
  show ?case
  proof (cases "(key, v) \<in> set entries")
    case True
    from Cons.IH [OF d True Cons.prems(3)] show ?thesis unfolding e by simp
  next
    case False
    with Cons.prems(2) e have kv: "key' = key" "v' = v" by auto
    from n kv have "outputName key \<notin> outputName ` fst ` set entries" by simp
    from resolveAuthSnippets_other [OF this]
    have o: "resolveAuthSnippets fw entries acc' (outputName key) = acc' (outputName key)" for acc' .
    have o1: "resolveAuthSnippets fw entries acc' (removeFirst ''Template'' key)
        = acc' (removeFirst ''Template'' key)" if "suffix ''Template'' key" for acc'
      using o [of acc'] that by (simp add: outputName_def)
    have o2: "resolveAuthSnippets fw entries acc' key = acc' key" if "\<not> suffix ''Template'' key" for acc'
      using o [of acc'] that by (simp add: outputName_def)
    from Cons.prems(3) show ?thesis
      unfolding e kv by (cases "suffix ''Template'' key") (simp_all add: o1 o2 outputName_def assignProperty_def)
  qed
qed

lemma resolveBase_snippetsObject: "snippetsObject (resolveBase fw b st) = snippetsObject st"
  by (induction b arbitrary: st) (auto simp: Let_def)

lemma resolveBase_other:
  "authKey \<notin> fst ` set b \<Longrightarrow>
   ownEntries (resolved (resolveBase fw b st)) authKey = ownEntries (resolved st) authKey"
proof (induction b arbitrary: st)
  case Nil
  show ?case by simp
next
  case (Cons e b)
  obtain k es where e: "e = (k, es)" by (cases e)
  from Cons.prems e have a: "authKey \<noteq> k" and n: "authKey \<notin> fst ` set b" by auto
  from a show ?case unfolding e by (simp add: Cons.IH [OF n] Let_def)
qed

lemma resolveBase_entry:
  "distinct (map fst b) \<Longrightarrow> (authKey, authSnippets) \<in> set b \<Longrightarrow> authKey \<noteq> ''__proto__'' \<Longrightarrow>
   ownEntries (resolved (resolveBase fw b st)) authKey
     = Some (resolveAuthSnippets fw authSnippets Map.empty)"
proof (induction b arbitrary: st)
  case Nil
  then show ?case by simp
next
  case (Cons e b)
  obtain k es where e: "e = (k, es)" by (cases e)
  from Cons.prems(1) e have d: "distinct (map fst b)" and n: "k \<notin> fst ` set b" by auto
  show ?case
  proof (cases "(authKey, authSnippets) \<in> set b")
    case True
    from Cons.IH [OF d True Cons.prems(3)] show ?thesis unfolding e by simp
  next
    case False
    with Cons.prems(2) e have kv: "k = authKey" "es = authSnippets" by auto
    from n kv have "authKey \<notin> fst ` set b" by simp
    from resolveBase_other [OF this] Cons.prems(3) show ?thesis
      unfolding e kv by (simp add: Let_def)
  qed
qed

lemma plainPackages_pkg:
  assumes "plainPackages fw"
    and "pkg \<in> {replacementText (serverPkg fw), replacementText (providerPkg fw),
                 replacementText (billingHookPkg fw)}"
    and "marker \<in> set frameworkMarkers"
  shows "plainValue pkg" and "\<not> completes pkg marker"
  using assms by (auto simp: plainPackages_def list_all_iff)

lemma resolveTemplate_no_markers:
  assumes "plainPackages fw" and "marker \<in> set frameworkMarkers"
  shows "\<not> sublist marker (resolveTemplate fw v)"
proof -
  let ?S = "''{SERVER_PKG}''" and ?P = "''{PROVIDER_PKG}''" and ?B = "''{BILLING_HOOK_PKG}''"
  let ?s = "replacementText (serverPkg fw)" and ?p = "replacementText (providerPkg fw)"
    and ?b = "replacementText (billingHookPkg fw)"
  let ?s1 = "replaceLiteral ?S ?s v"
  let ?s2 = "replaceLiteral ?P ?p ?s1"
  let ?s3 = "replaceLiteral ?B ?b ?s2"
  have mS: "?S \<in> set frameworkMarkers" and mP: "?P \<in> set frameworkMarkers"
    and mB: "?B \<in> set frameworkMarkers"
    by (simp_all add: frameworkMarkers_def)
  have pS: "?s \<in> {?s, ?p, ?b}" and pP: "?p \<in> {?s, ?p, ?b}" and pB: "?b \<in> {?s, ?p, ?b}"
    by simp_all
  note a = assms(1)
  have nP: "?P \<noteq> []" and nB: "?B \<noteq> []" by simp_all
  have r: "resolveTemplate fw v = ?s3"
    unfolding resolveTemplate_def
    by (simp only: lits_replace [OF plainPackages_pkg(1) [OF a pS mS]]
        lits_replace [OF plainPackages_pkg(1) [OF a pP mS]]
        lits_replace [OF plainPackages_pkg(1) [OF a pB mS]])
  have S1: "\<not> sublist ?S ?s1"
    by (rule replaceLiteral_removes [OF plainPackages_pkg(2) [OF a pS mS]])
  have S2: "\<not> sublist ?S ?s2"
    using sublist_replaceLiteral [OF nP plainPackages_pkg(2) [OF a pP mS]] S1 by blast
  have P2: "\<not> sublist ?P ?s2"
    by (rule replaceLiteral_removes [OF plainPackages_pkg(2) [OF a pP mP]])
  have S3: "\<not> sublist ?S ?s3"
    using sublist_replaceLiteral [OF nB plainPackages_pkg(2) [OF a pB mS]] S2 by blast
  have P3: "\<not> sublist ?P ?s3"
    using sublist_replaceLiteral [OF nB plainPackages_pkg(2) [OF a pB mP]] P2 by blast
  have B3: "\<not> sublist ?B ?s3"
    by (rule replaceLiteral_removes [OF plainPackages_pkg(2) [OF a pB mB]])
  from assms(2) have "marker = ?S \<or> marker = ?P \<or> marker = ?B"
    by (simp add: frameworkMarkers_def)
  with S3 P3 B3 show ?thesis unfolding r by blast
qed

section \<open>Properties of the setup-instructions operation\<close>

subsection \<open>The texts\<close>




subsection \<open>The steps that run\<close>


lemma fetchPricingModel_absent:
  "fetchDefaultPricingModel env k = Throws message \<or> fetchDefaultPricingModel env k = Returns None \<Longrightarrow>
   fetchPricingModel env k = ([FetchPricingModelStep], None, None, None)"
  by (auto simp: fetchPricingModel_def)

lemma fetchPricingModel_yaml_throws:
  "fetchDefaultPricingModel env k = Returns (Some d) \<Longrightarrow> yamlStringify env d = Throws message \<Longrightarrow>
   fetchPricingModel env k = ([FetchPricingModelStep, YamlStringifyStep], Some d, None, None)"
  by (simp add: fetchPricingModel_def)








lemma customizeInstructions_returns:
  assumes "generationTemplate env = Returns template" and "codeSnippets env = Returns snippets"
    and "\<forall>c. \<exists>reps. buildTemplateReplacements env c = Returns reps
            \<and> applyTemplateReplacements template reps \<noteq> None"
  shows "\<exists>steps customizedInstructions.
           customizeInstructions env args info d = (steps, Inr customizedInstructions)"
proof -
  let ?c = "Context info (codebaseAnalysis args) d snippets
      (case manualProjectStructure args of
         Some p \<Rightarrow> p
       | None \<Rightarrow> (case projectStructure info of Some p \<Rightarrow> p | None \<Rightarrow> nextjs))
      (orElse (manualStackDetails args) (orElse (stackDetails info) ''No stack details provided.''))"
  from assms(3) obtain reps t where "buildTemplateReplacements env ?c = Returns reps"
    and "applyTemplateReplacements template reps = Some t" by blast
  with assms(1,2) show ?thesis
    by (simp add: customizeInstructions_def Let_def)
qed

lemma getSetupInstructions_status:
  assumes "resolveBearerToken env apiKey = Inr key" and "\<not> analysisRequired args"
    and "fetchPricingModel env key = (fetchSteps, pricingModelData, None, None)"
    and "customizeInstructions env args (extractCodebaseInfo (codebaseAnalysis args) Map.empty)
           pricingModelData = (steps, Inr customizedInstructions)"
  shows "snd (getSetupInstructions env apiKey args)
     = Inr (customizedInstructions @ statusTail (pricingModelStatus pricingModelData None))"
  using assms by (simp add: getSetupInstructions_def Let_def)

text \<open>
  Claim C1, as amended. Take a token map whose keys have none of the pattern characters
  \<open>^ $ \ . * + ? ( ) [ ] |\<close> (braces are allowed: the source escapes them). If moreover no
  value has a dollar sign, \<open>applyTemplateReplacements\<close> goes through the entries in order and
  at each entry replaces every occurrence of the key, read as literal text, in the text
  produced so far by the value as it stands. Whatever the values are, a template in which
  no key occurs is returned unchanged, so a key that does not occur has no effect.
\<close>

theorem applyTemplateReplacements_literal:
  assumes "\<forall>(k, v) \<in> set replacements. literalKey k"
  shows "((\<forall>(k, v) \<in> set replacements. plainValue v) \<longrightarrow>
            applyTemplateReplacements template replacements
              = Some (substituteLiterally template replacements))
       \<and> ((\<forall>(k, v) \<in> set replacements. \<not> sublist k template) \<longrightarrow>
            applyTemplateReplacements template replacements = Some template)"
proof (intro conjI impI)
  assume "\<forall>(k, v) \<in> set replacements. plainValue v"
  with assms have "\<forall>(k, v) \<in> set replacements. literalKey k \<and> plainValue v" by auto
  then show "applyTemplateReplacements template replacements
               = Some (substituteLiterally template replacements)"
    by (rule applyTemplateReplacements_refines)
next
  assume "\<forall>(k, v) \<in> set replacements. \<not> sublist k template"
  with assms have "\<forall>(k, v) \<in> set replacements. literalKey k \<and> \<not> sublist k template" by auto
  then show "applyTemplateReplacements template replacements = Some template"
    by (rule applyTemplateReplacements_absent)
qed

theorem applyTemplateReplacements_literal_witness:
  "applyTemplateReplacements ''Use {FRAMEWORK} with {LANGUAGE}, {FRAMEWORK}!''
     [(''{FRAMEWORK}'', ''Next.js''), (''{LANGUAGE}'', ''TypeScript''), (''{ENV_FILE}'', ''.env'')]
     = Some ''Use Next.js with TypeScript, Next.js!''
   \<and> applyTemplateReplacements ''no tokens here'' [(''{FRAMEWORK}'', ''$&'')] = Some ''no tokens here''"
proof -
  let ?reps = "[(''{FRAMEWORK}'', ''Next.js''), (''{LANGUAGE}'', ''TypeScript''), (''{ENV_FILE}'', ''.env'')]"
  have k: "\<forall>(k, v) \<in> set ?reps. literalKey k"
    by code_simp
  have v: "\<forall>(k, v) \<in> set ?reps. plainValue v"
    by code_simp
  have "applyTemplateReplacements ''Use {FRAMEWORK} with {LANGUAGE}, {FRAMEWORK}!'' ?reps
          = Some (substituteLiterally ''Use {FRAMEWORK} with {LANGUAGE}, {FRAMEWORK}!'' ?reps)"
    using applyTemplateReplacements_literal [OF k] v by blast
  moreover have "substituteLiterally ''Use {FRAMEWORK} with {LANGUAGE}, {FRAMEWORK}!'' ?reps
          = ''Use Next.js with TypeScript, Next.js!''"
    by code_simp
  moreover have k': "\<forall>(k, v) \<in> set [(''{FRAMEWORK}'', ''$&'')]. literalKey k"
    by code_simp
  have "\<forall>(k, v) \<in> set [(''{FRAMEWORK}'', ''$&'')]. \<not> sublist k ''no tokens here''"
    by code_simp
  with applyTemplateReplacements_literal [OF k']
  have "applyTemplateReplacements ''no tokens here'' [(''{FRAMEWORK}'', ''$&'')] = Some ''no tokens here''"
    by blast
  ultimately show ?thesis by (simp only: simp_thms)
qed

text \<open>
  The claim as it was stated fails: the key \<open>a.c\<close> does not occur in \<open>abc\<close>, yet its dot
  matches the \<open>b\<close>; and the value \<open>$$5\<close> is not inserted as it stands.
\<close>

theorem applyTemplateReplacements_literal_counterexample:
  "\<not> sublist ''a.c'' ''abc''
   \<and> applyTemplateReplacements ''abc'' [(''a.c'', ''X'')] = Some ''X''
   \<and> applyTemplateReplacements ''costs {PRICE}'' [(''{PRICE}'', ''$$5'')] = Some ''costs $5''"
  by code_simp

subsection \<open>Applying a token map twice\<close>

text \<open>
  Claim C8, as amended. A template in which no key occurs is returned unchanged (keys
  without pattern characters other than braces). Applying the same token map to the result
  of a first application gives that result again whenever no key occurs in that result;
  this is so for every template when no key has a pattern character other than braces,
  no value has a dollar sign, and no value can be part of an occurrence of a key: no
  value is empty, contains a key, lies within a key, begins with an end of a key or ends
  with a beginning of a key. With a value that contains its own key, the second
  application differs from the first.
\<close>

theorem applyTemplateReplacements_twice:
  "((\<forall>(k, v) \<in> set replacements. literalKey k \<and> \<not> sublist k template) \<longrightarrow>
      applyTemplateReplacements template replacements = Some template)
   \<and> ((\<forall>(k, v) \<in> set replacements. literalKey k)
        \<and> applyTemplateReplacements template replacements = Some once
        \<and> (\<forall>(k, v) \<in> set replacements. \<not> sublist k once) \<longrightarrow>
      applyTemplateReplacements once replacements = Some once)
   \<and> ((\<forall>(k, v) \<in> set replacements. literalKey k \<and> plainValue v) \<and> boundaryFree replacements \<longrightarrow>
      (\<exists>r. applyTemplateReplacements template replacements = Some r
          \<and> (\<forall>(k, v) \<in> set replacements. \<not> sublist k r)
          \<and> applyTemplateReplacements r replacements = Some r))
   \<and> (sublist ''{A}'' ''<{A}>''
      \<and> applyTemplateReplacements ''{A}'' [(''{A}'', ''<{A}>'')] = Some ''<{A}>''
      \<and> applyTemplateReplacements ''<{A}>'' [(''{A}'', ''<{A}>'')] = Some ''<<{A}>>'')"
proof (intro conjI impI)
  assume "\<forall>(k, v) \<in> set replacements. literalKey k \<and> \<not> sublist k template"
  then show "applyTemplateReplacements template replacements = Some template"
    by (rule applyTemplateReplacements_absent)
next
  assume a: "(\<forall>(k, v) \<in> set replacements. literalKey k)
        \<and> applyTemplateReplacements template replacements = Some once
        \<and> (\<forall>(k, v) \<in> set replacements. \<not> sublist k once)"
  then have "\<forall>(k, v) \<in> set replacements. literalKey k \<and> \<not> sublist k once" by fastforce
  then show "applyTemplateReplacements once replacements = Some once"
    by (rule applyTemplateReplacements_absent)
next
  assume a: "(\<forall>(k, v) \<in> set replacements. literalKey k \<and> plainValue v) \<and> boundaryFree replacements"
  let ?r = "substituteLiterally template replacements"
  from a have lp: "\<forall>(k, v) \<in> set replacements. literalKey k \<and> plainValue v"
    and bf: "boundaryFree replacements" by blast+
  have 1: "applyTemplateReplacements template replacements = Some ?r"
    by (rule applyTemplateReplacements_refines [OF lp])
  have 2: "\<forall>(k, v) \<in> set replacements. \<not> sublist k ?r"
    by (rule substituteLiterally_removes_keys [OF bf])
  with lp have "\<forall>(k, v) \<in> set replacements. literalKey k \<and> \<not> sublist k ?r" by fastforce
  then have 3: "applyTemplateReplacements ?r replacements = Some ?r"
    by (rule applyTemplateReplacements_absent)
  from 1 2 3 show "\<exists>r. applyTemplateReplacements template replacements = Some r
          \<and> (\<forall>(k, v) \<in> set replacements. \<not> sublist k r)
          \<and> applyTemplateReplacements r replacements = Some r" by blast
next
  show "sublist ''{A}'' ''<{A}>''" by code_simp
next
  show "applyTemplateReplacements ''{A}'' [(''{A}'', ''<{A}>'')] = Some ''<{A}>''"
    by code_simp
next
  show "applyTemplateReplacements ''<{A}>'' [(''{A}'', ''<{A}>'')] = Some ''<<{A}>>''"
    by code_simp
qed

text \<open>
  The theorem at a token map of the kind the program builds: a template without tokens
  comes back as it is, and the template with both tokens is stable after one application.
\<close>

theorem applyTemplateReplacements_twice_witness:
  "applyTemplateReplacements ''no tokens here''
      [(''{FRAMEWORK}'', ''Next.js''), (''{LANGUAGE}'', ''TypeScript'')] = Some ''no tokens here''
   \<and> applyTemplateReplacements ''{FRAMEWORK} with {LANGUAGE}''
      [(''{FRAMEWORK}'', ''Next.js''), (''{LANGUAGE}'', ''TypeScript'')] = Some ''Next.js with TypeScript''
   \<and> applyTemplateReplacements ''Next.js with TypeScript''
      [(''{FRAMEWORK}'', ''Next.js''), (''{LANGUAGE}'', ''TypeScript'')] = Some ''Next.js with TypeScript''
   \<and> (\<exists>r. applyTemplateReplacements ''{LANGU{FRAMEWORK}AGE}''
         [(''{FRAMEWORK}'', ''Next.js''), (''{LANGUAGE}'', ''TypeScript'')] = Some r
       \<and> applyTemplateReplacements r
         [(''{FRAMEWORK}'', ''Next.js''), (''{LANGUAGE}'', ''TypeScript'')] = Some r)"
proof -
  let ?reps = "[(''{FRAMEWORK}'', ''Next.js''), (''{LANGUAGE}'', ''TypeScript'')]"
  have 1: "\<forall>(k, v) \<in> set ?reps. literalKey k \<and> \<not> sublist k ''no tokens here''"
    by code_simp
  have 2: "\<forall>(k, v) \<in> set ?reps. literalKey k"
    by code_simp
  have 3: "applyTemplateReplacements ''{FRAMEWORK} with {LANGUAGE}'' ?reps = Some ''Next.js with TypeScript''"
    by code_simp
  have 4: "\<forall>(k, v) \<in> set ?reps. \<not> sublist k ''Next.js with TypeScript''"
    by code_simp
  have 5: "\<forall>(k, v) \<in> set ?reps. literalKey k \<and> plainValue v"
    by code_simp
  have 6: "boundaryFree ?reps"
    by code_simp
  from applyTemplateReplacements_twice [of ?reps "''no tokens here''"] 1
  have a: "applyTemplateReplacements ''no tokens here'' ?reps = Some ''no tokens here''" by blast
  from applyTemplateReplacements_twice [of ?reps "''{FRAMEWORK} with {LANGUAGE}''" "''Next.js with TypeScript''"] 2 3 4
  have b: "applyTemplateReplacements ''Next.js with TypeScript'' ?reps = Some ''Next.js with TypeScript''" by blast
  from applyTemplateReplacements_twice [of ?reps "''{LANGU{FRAMEWORK}AGE}''"] 5 6
  have c: "\<exists>r. applyTemplateReplacements ''{LANGU{FRAMEWORK}AGE}'' ?reps = Some r
       \<and> applyTemplateReplacements r ?reps = Some r" by blast
  from a 3 b c show ?thesis by blast
qed

text \<open>
  The claim as it was stated fails: the value \<open>{\<close> does not contain the key \<open>{A}\<close>, but
  the first application puts it in front of \<open>A}\<close>, and the second application
  replaces the key formed there.
\<close>

theorem applyTemplateReplacements_twice_counterexample:
  "\<not> sublist ''{A}'' ''{''
   \<and> applyTemplateReplacements ''{A}A}'' [(''{A}'', ''{'')] = Some ''{A}''
   \<and> applyTemplateReplacements ''{A}'' [(''{A}'', ''{'')] = Some ''{''"
  by code_simp

subsection \<open>Defaults and file paths\<close>

text \<open>
  Claim C2, as amended. Without an analysis document \<open>extractCodebaseInfo\<close> returns the
  built-in defaults with the given paths merged over the built-in paths: a key of the
  override record wins with whatever value it has there, every other role keeps its
  built-in path. In that record \<open>projectStructure\<close>, \<open>stackDetails\<close> and
  \<open>additionalDetails\<close> are undefined. For every input, document or not, \<open>filePaths\<close> has a
  key for every role, and the value of a role is a string unless the override record
  gives that role the value \<open>undefined\<close>.
\<close>

theorem extractCodebaseInfo_defaults:
  "extractCodebaseInfo None defaultPaths =
     \<lparr> framework = ''Next.js'', language = ''TypeScript'', authLibrary = ''unknown'',
       customerModel = B2C, customerIdSource = ''user.id'', projectStructure = None,
       stackDetails = None, additionalDetails = None,
       filePaths = builtinFilePaths ++ defaultPaths \<rparr>
   \<and> (\<forall>role. filePaths (extractCodebaseInfo None defaultPaths) role
         = (case defaultPaths role of Some p \<Rightarrow> Some p | None \<Rightarrow> builtinFilePaths role))
   \<and> dom (filePaths (extractCodebaseInfo document defaultPaths)) = UNIV
   \<and> (\<forall>role. defaultPaths role \<noteq> Some None \<longrightarrow>
         (\<exists>p. filePaths (extractCodebaseInfo document defaultPaths) role = Some (Some p)))"
proof (intro conjI allI impI)
  show "extractCodebaseInfo None defaultPaths =
     \<lparr> framework = ''Next.js'', language = ''TypeScript'', authLibrary = ''unknown'',
       customerModel = B2C, customerIdSource = ''user.id'', projectStructure = None,
       stackDetails = None, additionalDetails = None,
       filePaths = builtinFilePaths ++ defaultPaths \<rparr>"
    by (simp add: extractCodebaseInfo_def defaults_def)
next
  fix role
  show "filePaths (extractCodebaseInfo None defaultPaths) role
         = (case defaultPaths role of Some p \<Rightarrow> Some p | None \<Rightarrow> builtinFilePaths role)"
    by (simp add: extractCodebaseInfo_def defaults_def map_add_def split: option.split)
next
  show "dom (filePaths (extractCodebaseInfo document defaultPaths)) = UNIV"
    by (rule dom_filePaths_extractCodebaseInfo)
next
  fix role
  assume "defaultPaths role \<noteq> Some None"
  then show "\<exists>p. filePaths (extractCodebaseInfo document defaultPaths) role = Some (Some p)"
    by (rule defined_filePaths_extractCodebaseInfo [of defaultPaths role])
qed

text \<open>
  The theorem with the override \<open>{libPath: 'lib', envFile: undefined}\<close>: the override of
  \<open>libPath\<close> wins, \<open>layoutFile\<close> keeps its built-in path, and with a document that answers
  no question \<open>serverFile\<close> is a key and \<open>layoutFile\<close>, which the override does not
  mention, has a string.
\<close>

theorem extractCodebaseInfo_defaults_witness:
  "filePaths (extractCodebaseInfo None [libPath \<mapsto> Some ''lib'', envFile \<mapsto> None]) libPath = Some (Some ''lib'')
   \<and> filePaths (extractCodebaseInfo None [libPath \<mapsto> Some ''lib'', envFile \<mapsto> None]) layoutFile
       = Some (Some ''src/app/layout.tsx'')
   \<and> serverFile \<in> dom (filePaths (extractCodebaseInfo (Some ''no answers here'')
       [libPath \<mapsto> Some ''lib'', envFile \<mapsto> None]))
   \<and> (\<exists>p. filePaths (extractCodebaseInfo (Some ''no answers here'')
       [libPath \<mapsto> Some ''lib'', envFile \<mapsto> None]) layoutFile = Some (Some p))"
proof -
  let ?ov = "[libPath \<mapsto> Some ''lib'', envFile \<mapsto> None]"
  note t = extractCodebaseInfo_defaults [of ?ov "Some ''no answers here''"]
  from t have a: "filePaths (extractCodebaseInfo None ?ov) libPath
      = (case ?ov libPath of Some p \<Rightarrow> Some p | None \<Rightarrow> builtinFilePaths libPath)"
    by blast
  from t have b: "filePaths (extractCodebaseInfo None ?ov) layoutFile
      = (case ?ov layoutFile of Some p \<Rightarrow> Some p | None \<Rightarrow> builtinFilePaths layoutFile)"
    by blast
  from t have c: "dom (filePaths (extractCodebaseInfo (Some ''no answers here'') ?ov)) = UNIV"
    by blast
  have h: "?ov layoutFile \<noteq> Some None" by simp
  from t have "?ov layoutFile \<noteq> Some None \<longrightarrow>
      (\<exists>p. filePaths (extractCodebaseInfo (Some ''no answers here'') ?ov) layoutFile = Some (Some p))"
    by blast
  with h have d: "\<exists>p. filePaths (extractCodebaseInfo (Some ''no answers here'') ?ov) layoutFile = Some (Some p)"
    by blast
  from a have "filePaths (extractCodebaseInfo None ?ov) libPath = Some (Some ''lib'')"
    by simp
  moreover from b have "filePaths (extractCodebaseInfo None ?ov) layoutFile = Some (Some ''src/app/layout.tsx'')"
    by (simp add: builtinFilePaths_def)
  moreover from c have "serverFile \<in> dom (filePaths (extractCodebaseInfo (Some ''no answers here'') ?ov))"
    by simp
  ultimately show ?thesis using d by blast
qed

text \<open>
  The claim as it was stated fails: without a document and without overrides three fields
  of the record are undefined, and an override record that gives \<open>libPath\<close> the value
  \<open>undefined\<close> leaves \<open>filePaths.libPath\<close> undefined.
\<close>

theorem extractCodebaseInfo_defaults_counterexample:
  "projectStructure (extractCodebaseInfo None Map.empty) = None
   \<and> stackDetails (extractCodebaseInfo None Map.empty) = None
   \<and> additionalDetails (extractCodebaseInfo None Map.empty) = None
   \<and> filePaths (extractCodebaseInfo None [libPath \<mapsto> None]) libPath = Some None"
  by (simp add: extractCodebaseInfo_def defaults_def)

subsection \<open>The customer model\<close>

lemma markers_apart: "\<not> (prefix b2bMarker s \<and> prefix b2cMarker s)"
proof
  assume a: "prefix b2bMarker s \<and> prefix b2cMarker s"
  then obtain x where x: "s = b2bMarker @ x" unfolding prefix_def by blast
  from a obtain y where y: "s = b2cMarker @ y" unfolding prefix_def by blast
  from x y have "b2bMarker @ x = b2cMarker @ y" by simp
  then show False by (simp add: b2bMarker_def b2cMarker_def)
qed

lemma indexOf_markers_differ:
  assumes "sublist b2bMarker doc" and "sublist b2cMarker doc"
  shows "indexOf doc b2bMarker \<noteq> indexOf doc b2cMarker"
proof
  assume e: "indexOf doc b2bMarker = indexOf doc b2cMarker"
  from indexOf_first_occurrence [OF assms(1)] obtain k
    where k: "indexOf doc b2bMarker = int k" "prefix b2bMarker (drop k doc)" by blast
  from indexOf_first_occurrence [OF assms(2)] obtain l
    where l: "indexOf doc b2cMarker = int l" "prefix b2cMarker (drop l doc)" by blast
  from e k(1) l(1) have "k = l" by simp
  with k(2) l(2) markers_apart [of "drop k doc"] show False by blast
qed

text \<open>
  Claim C3, as amended. The positions compared are those of the first occurrences of the
  two markers, as \<open>indexOf\<close> gives them. The customer model is B2B exactly when the
  business marker \<open>**B2B**: Businesses\<close> occurs in the document and the individual marker
  \<open>**B2C**: Individual users\<close> either does not occur or first occurs at a later position
  than the business marker first occurs. It is B2C in every other case: only the
  individual marker, neither marker, or both with the individual marker first occurring
  before the business marker first occurs.
\<close>

theorem extractCodebaseInfo_customerModel:
  "(customerModel (extractCodebaseInfo (Some doc) defaultPaths) = B2B \<longleftrightarrow>
      sublist b2bMarker doc
      \<and> (\<not> sublist b2cMarker doc \<or> indexOf doc b2bMarker < indexOf doc b2cMarker))
   \<and> (customerModel (extractCodebaseInfo (Some doc) defaultPaths) = B2C \<longleftrightarrow>
      \<not> sublist b2bMarker doc
      \<or> (sublist b2cMarker doc \<and> indexOf doc b2cMarker < indexOf doc b2bMarker))
   \<and> (\<forall>marker. sublist marker doc \<longrightarrow>
        (\<exists>k. indexOf doc marker = int k \<and> prefix marker (drop k doc)
            \<and> (\<forall>j < k. \<not> prefix marker (drop j doc))))"
proof -
  let ?cm = "customerModel (extractCodebaseInfo (Some doc) defaultPaths)"
  let ?b2b = "sublist b2bMarker doc
      \<and> (\<not> sublist b2cMarker doc \<or> indexOf doc b2bMarker < indexOf doc b2cMarker)"
  have 1: "?cm = B2B \<longleftrightarrow> ?b2b"
  proof (cases "doc = []")
    case True
    then show ?thesis
      by (simp add: extractCodebaseInfo_def defaults_def b2bMarker_def)
  next
    case False
    then have "?cm = customerModel (extractCustomerModel doc (defaults defaultPaths))"
      by (rule customerModel_extractCodebaseInfo)
    then show ?thesis
      by (simp add: extractCustomerModel_def Let_def indexOf_absent defaults_def)
  qed
  have "?cm = B2C \<longleftrightarrow> \<not> ?b2b" using 1 by (cases ?cm) simp_all
  also have "\<dots> \<longleftrightarrow> \<not> sublist b2bMarker doc
      \<or> (sublist b2cMarker doc \<and> indexOf doc b2cMarker < indexOf doc b2bMarker)"
    using indexOf_markers_differ [of doc] by fastforce
  finally have 2: "?cm = B2C \<longleftrightarrow> \<not> sublist b2bMarker doc
      \<or> (sublist b2cMarker doc \<and> indexOf doc b2cMarker < indexOf doc b2bMarker)" .
  have 3: "\<forall>marker. sublist marker doc \<longrightarrow>
        (\<exists>k. indexOf doc marker = int k \<and> prefix marker (drop k doc)
            \<and> (\<forall>j < k. \<not> prefix marker (drop j doc)))"
    using indexOf_first_occurrence by blast
  from 1 2 3 show ?thesis by blast
qed

text \<open>
  The theorem on four documents: business marker first, individual marker only, individual
  marker first, and no marker at all.
\<close>

theorem extractCodebaseInfo_customerModel_witness:
  "customerModel (extractCodebaseInfo (Some ''- **B2B**: Businesses or - **B2C**: Individual users'') Map.empty) = B2B
   \<and> customerModel (extractCodebaseInfo (Some ''- **B2C**: Individual users'') Map.empty) = B2C
   \<and> customerModel (extractCodebaseInfo (Some ''**B2C**: Individual users, **B2B**: Businesses'') Map.empty) = B2C
   \<and> customerModel (extractCodebaseInfo (Some ''no marker'') Map.empty) = B2C
   \<and> (\<exists>k. indexOf ''- **B2C**: Individual users'' b2cMarker = int k
        \<and> prefix b2cMarker (drop k ''- **B2C**: Individual users''))"
proof -
  let ?d1 = "''- **B2B**: Businesses or - **B2C**: Individual users''"
  let ?d2 = "''- **B2C**: Individual users''"
  let ?d3 = "''**B2C**: Individual users, **B2B**: Businesses''"
  let ?d4 = "''no marker''"
  have 1: "sublist b2bMarker ?d1 \<and> (\<not> sublist b2cMarker ?d1 \<or> indexOf ?d1 b2bMarker < indexOf ?d1 b2cMarker)"
    by code_simp
  have 2: "\<not> sublist b2bMarker ?d2"
    by code_simp
  have 3: "sublist b2cMarker ?d3 \<and> indexOf ?d3 b2cMarker < indexOf ?d3 b2bMarker"
    by code_simp
  have 4: "\<not> sublist b2bMarker ?d4"
    by code_simp
  have 5: "sublist b2cMarker ?d2"
    by code_simp
  from extractCodebaseInfo_customerModel [of ?d1 Map.empty] 1
  have a: "customerModel (extractCodebaseInfo (Some ?d1) Map.empty) = B2B" by blast
  from extractCodebaseInfo_customerModel [of ?d2 Map.empty] 2
  have b: "customerModel (extractCodebaseInfo (Some ?d2) Map.empty) = B2C" by blast
  from extractCodebaseInfo_customerModel [of ?d3 Map.empty] 3
  have c: "customerModel (extractCodebaseInfo (Some ?d3) Map.empty) = B2C" by blast
  from extractCodebaseInfo_customerModel [of ?d4 Map.empty] 4
  have d: "customerModel (extractCodebaseInfo (Some ?d4) Map.empty) = B2C" by blast
  from extractCodebaseInfo_customerModel [of ?d2 Map.empty] 5
  have e: "\<exists>k. indexOf ?d2 b2cMarker = int k \<and> prefix b2cMarker (drop k ?d2)" by blast
  from a b c d e show ?thesis by blast
qed

text \<open>
  The claim as it was stated fails: in this document the business marker, at position 27,
  occurs strictly before the individual marker at position 48, and the customer model is
  B2C, because the individual marker first occurs at position 0.
\<close>

theorem extractCodebaseInfo_customerModel_counterexample:
  "prefix b2bMarker (drop 27 ''**B2C**: Individual users, **B2B**: Businesses, **B2C**: Individual users'')
   \<and> prefix b2cMarker (drop 48 ''**B2C**: Individual users, **B2B**: Businesses, **B2C**: Individual users'')
   \<and> customerModel (extractCodebaseInfo
        (Some ''**B2C**: Individual users, **B2B**: Businesses, **B2C**: Individual users'') Map.empty) = B2C"
proof -
  let ?d = "''**B2C**: Individual users, **B2B**: Businesses, **B2C**: Individual users''"
  have 1: "prefix b2bMarker (drop 27 ?d)" by code_simp
  have 2: "prefix b2cMarker (drop 48 ?d)" by code_simp
  have "?d \<noteq> []" by simp
  then have "customerModel (extractCodebaseInfo (Some ?d) Map.empty)
     = customerModel (extractCustomerModel ?d (defaults Map.empty))"
    by (rule customerModel_extractCodebaseInfo)
  also have "\<dots> = B2C" by code_simp
  finally show ?thesis using 1 2 by blast
qed

subsection \<open>The authentication library\<close>

lemma regexMatch_authLibraryPattern_Nil: "regexMatch authLibraryPattern [] = None"
  by code_simp

text \<open>
  Claim C9, as amended. When the auth-library pattern matches and the matched answer has
  none of the keywords \<open>clerk\<close>, \<open>supabase\<close>, \<open>nextauth\<close>, \<open>next-auth\<close> in any letter case,
  \<open>authLibrary\<close> is the matched answer itself, with the white space at its ends removed.
\<close>

theorem extractCodebaseInfo_authLibrary_other:
  assumes "regexMatch authLibraryPattern doc = Some (m, authMatch1)"
    and "\<not> stringIncludes (toLowerCase authMatch1) ''clerk''"
    and "\<not> stringIncludes (toLowerCase authMatch1) ''supabase''"
    and "\<not> stringIncludes (toLowerCase authMatch1) ''nextauth''"
    and "\<not> stringIncludes (toLowerCase authMatch1) ''next-auth''"
  shows "authLibrary (extractCodebaseInfo (Some doc) defaultPaths) = trim authMatch1"
proof -
  from assms(1) have "doc \<noteq> []"
    using regexMatch_authLibraryPattern_Nil by auto
  then have "authLibrary (extractCodebaseInfo (Some doc) defaultPaths)
     = authLibrary (extractAuthLibrary doc (defaults defaultPaths))"
    by (rule authLibrary_extractCodebaseInfo)
  with assms show ?thesis
    by (simp add: extractAuthLibrary_def Let_def)
qed

theorem extractCodebaseInfo_authLibrary_other_witness:
  "authLibrary (extractCodebaseInfo (Some auth0Doc) Map.empty) = ''Auth0''"
proof -
  have m: "regexMatch authLibraryPattern auth0Doc = Some (auth0Doc, ''Auth0'')"
    by code_simp
  have k: "\<not> stringIncludes (toLowerCase ''Auth0'') ''clerk''"
    "\<not> stringIncludes (toLowerCase ''Auth0'') ''supabase''"
    "\<not> stringIncludes (toLowerCase ''Auth0'') ''nextauth''"
    "\<not> stringIncludes (toLowerCase ''Auth0'') ''next-auth''"
    by code_simp+
  have t: "trim ''Auth0'' = ''Auth0''"
    by code_simp
  from extractCodebaseInfo_authLibrary_other [OF m k, of Map.empty] t
  show ?thesis by simp
qed

text \<open>
  The claim as it was stated fails: two documents whose answers have none of the keywords
  get two different values.
\<close>

theorem extractCodebaseInfo_authLibrary_other_counterexample:
  "regexMatch authLibraryPattern firebaseDoc = Some (firebaseDoc, ''Firebase'')
   \<and> regexMatch authLibraryPattern auth0Doc = Some (auth0Doc, ''Auth0'')
   \<and> authLibrary (extractCodebaseInfo (Some firebaseDoc) Map.empty) = ''Firebase''
   \<and> authLibrary (extractCodebaseInfo (Some auth0Doc) Map.empty) = ''Auth0''"
proof -
  have f: "regexMatch authLibraryPattern firebaseDoc = Some (firebaseDoc, ''Firebase'')"
    by code_simp
  have a: "regexMatch authLibraryPattern auth0Doc = Some (auth0Doc, ''Auth0'')"
    by code_simp
  have fn: "firebaseDoc \<noteq> []" and an: "auth0Doc \<noteq> []"
    by (simp_all add: firebaseDoc_def auth0Doc_def)
  have lf: "toLowerCase ''Firebase'' = ''firebase''" and la: "toLowerCase ''Auth0'' = ''auth0''"
    by code_simp+
  have kf: "\<not> stringIncludes ''firebase'' ''clerk'' \<and> \<not> stringIncludes ''firebase'' ''supabase''
      \<and> \<not> stringIncludes ''firebase'' ''nextauth'' \<and> \<not> stringIncludes ''firebase'' ''next-auth''"
    by code_simp
  have ka: "\<not> stringIncludes ''auth0'' ''clerk'' \<and> \<not> stringIncludes ''auth0'' ''supabase''
      \<and> \<not> stringIncludes ''auth0'' ''nextauth'' \<and> \<not> stringIncludes ''auth0'' ''next-auth''"
    by code_simp
  have tf: "trim ''Firebase'' = ''Firebase''" and ta: "trim ''Auth0'' = ''Auth0''"
    by code_simp+
  have "authLibrary (extractAuthLibrary firebaseDoc (defaults Map.empty)) = ''Firebase''"
    unfolding extractAuthLibrary_def f using kf by (simp only: option.case prod.case Let_def lf tf simp_thms if_False) simp
  then have 1: "authLibrary (extractCodebaseInfo (Some firebaseDoc) Map.empty) = ''Firebase''"
    by (simp only: authLibrary_extractCodebaseInfo [OF fn])
  have "authLibrary (extractAuthLibrary auth0Doc (defaults Map.empty)) = ''Auth0''"
    unfolding extractAuthLibrary_def a using ka by (simp only: option.case prod.case Let_def la ta simp_thms if_False) simp
  then have 2: "authLibrary (extractCodebaseInfo (Some auth0Doc) Map.empty) = ''Auth0''"
    by (simp only: authLibrary_extractCodebaseInfo [OF an])
  from f a 1 2 show ?thesis by blast
qed

section \<open>Properties of the pricing model analysis\<close>

text \<open>
  Claim C4. \<open>hasTrials\<close> holds exactly when some price of some product has a trial period
  that is a value (neither \<open>undefined\<close> nor \<open>null\<close>), so a trial of zero days counts;
  \<open>hasUsageMeters\<close> holds exactly when there is a usage meter, so it is false without meters
  and true once a meter is added, whatever the other fields are; \<open>hasToggleFeatures\<close> holds
  exactly when some feature has the type toggle.
\<close>

theorem analyzePricingModel_flags:
  "(hasTrials (analyzePricingModel d) \<longleftrightarrow>
      (\<exists>product \<in> set (products d). \<exists>price \<in> set (prices product). \<exists>n. trialPeriodDays price = Value n))
   \<and> ((\<exists>product \<in> set (products d). \<exists>price \<in> set (prices product). trialPeriodDays price = Value 0)
        \<longrightarrow> hasTrials (analyzePricingModel d))
   \<and> (hasUsageMeters (analyzePricingModel d) \<longleftrightarrow> usageMeters d \<noteq> [])
   \<and> \<not> hasUsageMeters (analyzePricingModel (d\<lparr>usageMeters := []\<rparr>))
   \<and> hasUsageMeters (analyzePricingModel (d\<lparr>usageMeters := meter # usageMeters d\<rparr>))
   \<and> hasUsageMeters (analyzePricingModel (d\<lparr>usageMeters := usageMeters d @ [meter]\<rparr>))
   \<and> (hasToggleFeatures (analyzePricingModel d) \<longleftrightarrow>
        (\<exists>feature \<in> set (features d). featureType feature = Toggle))"
proof (intro conjI)
  have v: "(t \<noteq> Undefined \<and> t \<noteq> Null) = (\<exists>n. t = Value n)" for t :: "int nullable"
    by (cases t) auto
  show "hasTrials (analyzePricingModel d) \<longleftrightarrow>
      (\<exists>product \<in> set (products d). \<exists>price \<in> set (prices product). \<exists>n. trialPeriodDays price = Value n)"
    by (simp add: analyzePricingModel_def list_ex_iff v)
  then show "(\<exists>product \<in> set (products d). \<exists>price \<in> set (prices product). trialPeriodDays price = Value 0)
        \<longrightarrow> hasTrials (analyzePricingModel d)"
    by blast
qed (simp_all add: analyzePricingModel_def list_ex_iff)

theorem analyzePricingModel_flags_witness:
  "hasTrials (analyzePricingModel
      \<lparr> products = [\<lparr> productName = ''Pro'', prices = [\<lparr> trialPeriodDays = Null \<rparr>, \<lparr> trialPeriodDays = Value 0 \<rparr>] \<rparr>],
        features = [\<lparr> featureType = UsageCreditGrant, featureSlug = ''credits'' \<rparr>],
        usageMeters = [] \<rparr>)
   \<and> \<not> hasUsageMeters (analyzePricingModel
      \<lparr> products = [\<lparr> productName = ''Pro'', prices = [\<lparr> trialPeriodDays = Null \<rparr>, \<lparr> trialPeriodDays = Value 0 \<rparr>] \<rparr>],
        features = [\<lparr> featureType = UsageCreditGrant, featureSlug = ''credits'' \<rparr>],
        usageMeters = [] \<rparr>)
   \<and> \<not> hasToggleFeatures (analyzePricingModel
      \<lparr> products = [\<lparr> productName = ''Pro'', prices = [\<lparr> trialPeriodDays = Null \<rparr>, \<lparr> trialPeriodDays = Value 0 \<rparr>] \<rparr>],
        features = [\<lparr> featureType = UsageCreditGrant, featureSlug = ''credits'' \<rparr>],
        usageMeters = [] \<rparr>)"
proof -
  let ?d = "\<lparr> products = [\<lparr> productName = ''Pro'', prices = [\<lparr> trialPeriodDays = Null \<rparr>, \<lparr> trialPeriodDays = Value 0 \<rparr>] \<rparr>],
        features = [\<lparr> featureType = UsageCreditGrant, featureSlug = ''credits'' \<rparr>],
        usageMeters = [] \<rparr>"
  note t = analyzePricingModel_flags [of ?d]
  have "\<exists>product \<in> set (products ?d). \<exists>price \<in> set (prices product). trialPeriodDays price = Value 0"
    by simp
  with t have 1: "hasTrials (analyzePricingModel ?d)" by blast
  have "usageMeters ?d = []" by simp
  with t have 2: "\<not> hasUsageMeters (analyzePricingModel ?d)" by blast
  have "\<not> (\<exists>feature \<in> set (features ?d). featureType feature = Toggle)" by simp
  with t have 3: "\<not> hasToggleFeatures (analyzePricingModel ?d)" by blast
  from 1 2 3 show ?thesis by blast
qed

text \<open>
  Claim C7, as amended. For a library that has a \<open>frameworks\<close> level, \<open>resolveSnippets\<close>
  returns null when the base level or the entry of the selected framework is missing.
  Otherwise it returns an object which, for every auth provider of a base level with
  distinct keys, has an entry, provided the provider is not named \<open>__proto__\<close> and its
  keys are plain: a key that ends in \<open>Template\<close> has \<open>Template\<close> nowhere else, no two
  entries go out under the same name, and no name is \<open>__proto__\<close>. In that entry every key
  that ends in \<open>Template\<close> is there under the key without that suffix, with the three
  markers replaced one after the other, and no marker is left in the value when no
  inserted package name has a dollar sign or can be part of an occurrence of a marker;
  every other key is there with its value unchanged. The library object is, when the call
  ends, as it was.
\<close>

theorem resolveSnippets_resolved:
  "(frameworks snippets = Some fs \<and> (base snippets = None \<or> fs frameworkKey = None)
      \<longrightarrow> fst (resolveSnippets snippets frameworkKey) = ReturnsNull)
   \<and> (frameworks snippets = Some fs \<and> base snippets = Some b \<and> fs frameworkKey = Some fw
        \<and> distinct (map fst b)
      \<longrightarrow> (\<exists>object. fst (resolveSnippets snippets frameworkKey) = Returned object
            \<and> (\<forall>(authKey, authSnippets) \<in> set b.
                  authKey \<noteq> ''__proto__'' \<and> plainKeys authSnippets \<longrightarrow>
                  (\<exists>resolvedAuth. ownEntries object authKey = Some resolvedAuth
                     \<and> (\<forall>(key, v) \<in> set authSnippets.
                           (suffix ''Template'' key \<longrightarrow>
                              resolvedAuth (strippedName key) = Some (resolveTemplate fw v)
                              \<and> (plainPackages fw \<longrightarrow>
                                   (\<forall>marker \<in> set frameworkMarkers.
                                      \<not> sublist marker (resolveTemplate fw v))))
                           \<and> (\<not> suffix ''Template'' key \<longrightarrow> resolvedAuth key = Some v))))))
   \<and> snd (resolveSnippets snippets frameworkKey) = snippets"
proof (intro conjI impI)
  assume "frameworks snippets = Some fs \<and> (base snippets = None \<or> fs frameworkKey = None)"
  then show "fst (resolveSnippets snippets frameworkKey) = ReturnsNull"
    by (auto simp: resolveSnippets_def split: option.split)
next
  assume a: "frameworks snippets = Some fs \<and> base snippets = Some b \<and> fs frameworkKey = Some fw
        \<and> distinct (map fst b)"
  let ?st = "\<lparr> snippetsObject = snippets,
                resolved = \<lparr> ownEntries = Map.empty, prototypeEntries = None \<rparr> \<rparr>"
  let ?object = "resolved (resolveBase fw b ?st)"
  from a have r: "fst (resolveSnippets snippets frameworkKey) = Returned ?object"
    by (simp add: resolveSnippets_def Let_def)
  from a have d: "distinct (map fst b)" by blast
  have "\<forall>(authKey, authSnippets) \<in> set b.
          authKey \<noteq> ''__proto__'' \<and> plainKeys authSnippets \<longrightarrow>
          (\<exists>resolvedAuth. ownEntries ?object authKey = Some resolvedAuth
             \<and> (\<forall>(key, v) \<in> set authSnippets.
                   (suffix ''Template'' key \<longrightarrow>
                      resolvedAuth (strippedName key) = Some (resolveTemplate fw v)
                      \<and> (plainPackages fw \<longrightarrow>
                           (\<forall>marker \<in> set frameworkMarkers.
                              \<not> sublist marker (resolveTemplate fw v))))
                   \<and> (\<not> suffix ''Template'' key \<longrightarrow> resolvedAuth key = Some v)))"
  proof (rule ballI, rule case_prodI2, rule impI)
    fix p authKey authSnippets
    assume m: "p \<in> set b" and p: "p = (authKey, authSnippets)"
      and h: "authKey \<noteq> ''__proto__'' \<and> plainKeys authSnippets"
    let ?ra = "resolveAuthSnippets fw authSnippets Map.empty"
    from m p have "(authKey, authSnippets) \<in> set b" by simp
    from resolveBase_entry [OF d this] h
    have 1: "ownEntries ?object authKey = Some ?ra" by blast
    from h have pk: "plainKeys authSnippets" by blast
    note dn = plainKeys_outputName(1) [OF pk] and nm = plainKeys_outputName(2) [OF pk]
    have 2: "\<forall>(key, v) \<in> set authSnippets.
               (suffix ''Template'' key \<longrightarrow>
                  ?ra (strippedName key) = Some (resolveTemplate fw v)
                  \<and> (plainPackages fw \<longrightarrow>
                       (\<forall>marker \<in> set frameworkMarkers.
                          \<not> sublist marker (resolveTemplate fw v))))
               \<and> (\<not> suffix ''Template'' key \<longrightarrow> ?ra key = Some v)"
    proof (rule ballI, rule case_prodI2)
      fix q key v
      assume mq: "q \<in> set authSnippets" and q: "q = (key, v)"
      then have mem: "(key, v) \<in> set authSnippets" by simp
      have n: "outputName key = emittedName key \<and> outputName key \<noteq> ''__proto__''"
        by (rule bspec [OF nm mem, unfolded prod.case])
      then have np: "outputName key \<noteq> ''__proto__''" and oe: "outputName key = emittedName key"
        by blast+
      have e: "?ra (outputName key) = Some (if suffix ''Template'' key then resolveTemplate fw v else v)"
        by (rule resolveAuthSnippets_entry [OF dn mem np])
      show "(suffix ''Template'' key \<longrightarrow>
                  ?ra (strippedName key) = Some (resolveTemplate fw v)
                  \<and> (plainPackages fw \<longrightarrow>
                       (\<forall>marker \<in> set frameworkMarkers.
                          \<not> sublist marker (resolveTemplate fw v))))
               \<and> (\<not> suffix ''Template'' key \<longrightarrow> ?ra key = Some v)"
      proof (cases "suffix ''Template'' key")
        case True
        with e oe have "?ra (strippedName key) = Some (resolveTemplate fw v)"
          by (simp add: emittedName_def)
        with True show ?thesis using resolveTemplate_no_markers [of fw _ v] by blast
      next
        case False
        with e oe have "?ra key = Some v" by (simp add: emittedName_def)
        with False show ?thesis by blast
      qed
    qed
    from 1 2 show "\<exists>resolvedAuth. ownEntries ?object authKey = Some resolvedAuth
             \<and> (\<forall>(key, v) \<in> set authSnippets.
                   (suffix ''Template'' key \<longrightarrow>
                      resolvedAuth (strippedName key) = Some (resolveTemplate fw v)
                      \<and> (plainPackages fw \<longrightarrow>
                           (\<forall>marker \<in> set frameworkMarkers.
                              \<not> sublist marker (resolveTemplate fw v))))
                   \<and> (\<not> suffix ''Template'' key \<longrightarrow> resolvedAuth key = Some v))"
      by blast
  qed
  with r show "\<exists>object. fst (resolveSnippets snippets frameworkKey) = Returned object
            \<and> (\<forall>(authKey, authSnippets) \<in> set b.
                  authKey \<noteq> ''__proto__'' \<and> plainKeys authSnippets \<longrightarrow>
                  (\<exists>resolvedAuth. ownEntries object authKey = Some resolvedAuth
                     \<and> (\<forall>(key, v) \<in> set authSnippets.
                           (suffix ''Template'' key \<longrightarrow>
                              resolvedAuth (strippedName key) = Some (resolveTemplate fw v)
                              \<and> (plainPackages fw \<longrightarrow>
                                   (\<forall>marker \<in> set frameworkMarkers.
                                      \<not> sublist marker (resolveTemplate fw v))))
                           \<and> (\<not> suffix ''Template'' key \<longrightarrow> resolvedAuth key = Some v))))"
    by blast
next
  show "snd (resolveSnippets snippets frameworkKey) = snippets"
    by (simp add: resolveSnippets_def Let_def resolveBase_snippetsObject split: option.split)
qed

text \<open>
  The theorem on a library with one auth provider and the framework \<open>nextjs\<close> only, whose
  entry has no \<open>billingHookPkg\<close>.
\<close>

theorem resolveSnippets_resolved_witness:
  "fst (resolveSnippets exampleLibrary react) = ReturnsNull
   \<and> emittedSnippet exampleLibrary nextjs ''clerk'' ''serverInit''
       = Some (''import { FlowgladServer } from '' @ [CHR 0x27] @ ''@flowglad/nextjs/server'' @ [CHR 0x27])
   \<and> \<not> sublist ''{SERVER_PKG}''
         (''import { FlowgladServer } from '' @ [CHR 0x27] @ ''@flowglad/nextjs/server'' @ [CHR 0x27])
   \<and> emittedSnippet exampleLibrary nextjs ''clerk'' ''layoutProvider'' = Some ''<FlowgladProvider>''
   \<and> snd (resolveSnippets exampleLibrary nextjs) = exampleLibrary"
proof -
  let ?v1 = "''import { FlowgladServer } from '' @ [CHR 0x27] @ ''{SERVER_PKG}'' @ [CHR 0x27]"
  let ?r1 = "''import { FlowgladServer } from '' @ [CHR 0x27] @ ''@flowglad/nextjs/server'' @ [CHR 0x27]"
  let ?es = "[(''serverInitTemplate'', ?v1), (''layoutProvider'', ''<FlowgladProvider>'')]"
  let ?b = "[(''clerk'', ?es)]"
  let ?fw = "\<lparr> serverPkg = Some ''@flowglad/nextjs/server'', providerPkg = Some ''@flowglad/nextjs'',
              billingHookPkg = None \<rparr>"
  let ?fs = "[nextjs \<mapsto> ?fw]"
  note t = resolveSnippets_resolved [of exampleLibrary ?fs nextjs ?b ?fw]
  note t2 = resolveSnippets_resolved [of exampleLibrary ?fs react ?b ?fw]
  have hf: "frameworks exampleLibrary = Some ?fs" and hb: "base exampleLibrary = Some ?b"
    by (simp_all add: exampleLibrary_def)
  have "?fs react = None" by simp
  with t2 hf have 1: "fst (resolveSnippets exampleLibrary react) = ReturnsNull" by blast
  have he: "?fs nextjs = Some ?fw" by simp
  have db: "distinct (map fst ?b)" by simp
  from t hf hb he db obtain object where r: "fst (resolveSnippets exampleLibrary nextjs) = Returned object"
    and every: "\<forall>(authKey, authSnippets) \<in> set ?b.
                  authKey \<noteq> ''__proto__'' \<and> plainKeys authSnippets \<longrightarrow>
                  (\<exists>resolvedAuth. ownEntries object authKey = Some resolvedAuth
                     \<and> (\<forall>(key, v) \<in> set authSnippets.
                           (suffix ''Template'' key \<longrightarrow>
                              resolvedAuth (strippedName key) = Some (resolveTemplate ?fw v)
                              \<and> (plainPackages ?fw \<longrightarrow>
                                   (\<forall>marker \<in> set frameworkMarkers.
                                      \<not> sublist marker (resolveTemplate ?fw v))))
                           \<and> (\<not> suffix ''Template'' key \<longrightarrow> resolvedAuth key = Some v)))"
    by blast
  have nk: "''clerk'' \<noteq> ''__proto__''" by simp
  have pk: "plainKeys ?es" by code_simp
  from every nk pk obtain resolvedAuth where ra: "ownEntries object ''clerk'' = Some resolvedAuth"
    and ent: "\<forall>(key, v) \<in> set ?es.
                 (suffix ''Template'' key \<longrightarrow>
                    resolvedAuth (strippedName key) = Some (resolveTemplate ?fw v)
                    \<and> (plainPackages ?fw \<longrightarrow>
                         (\<forall>marker \<in> set frameworkMarkers.
                            \<not> sublist marker (resolveTemplate ?fw v))))
                 \<and> (\<not> suffix ''Template'' key \<longrightarrow> resolvedAuth key = Some v)"
    by auto
  have s1: "suffix ''Template'' ''serverInitTemplate''" and s2: "\<not> suffix ''Template'' ''layoutProvider''"
    by code_simp+
  have n1: "strippedName ''serverInitTemplate'' = ''serverInit''" by code_simp
  have rt: "resolveTemplate ?fw ?v1 = ?r1" by code_simp
  have pp: "plainPackages ?fw" by code_simp
  have mk: "''{SERVER_PKG}'' \<in> set frameworkMarkers" by (simp add: frameworkMarkers_def)
  from ent s1 have "resolvedAuth (strippedName ''serverInitTemplate'') = Some (resolveTemplate ?fw ?v1)
      \<and> (plainPackages ?fw \<longrightarrow>
           (\<forall>marker \<in> set frameworkMarkers. \<not> sublist marker (resolveTemplate ?fw ?v1)))"
    by simp
  with pp mk have x1: "resolvedAuth (strippedName ''serverInitTemplate'') = Some (resolveTemplate ?fw ?v1)"
    and x2: "\<not> sublist ''{SERVER_PKG}'' (resolveTemplate ?fw ?v1)" by blast+
  from x1 have e1: "resolvedAuth ''serverInit'' = Some ?r1" unfolding n1 rt .
  from x2 have m1: "\<not> sublist ''{SERVER_PKG}'' ?r1" unfolding rt .
  from ent s2 have e2: "resolvedAuth ''layoutProvider'' = Some ''<FlowgladProvider>''" by simp
  from r ra e1 have 2: "emittedSnippet exampleLibrary nextjs ''clerk'' ''serverInit'' = Some ?r1"
    by (simp add: emittedSnippet_def)
  from r ra e2 have 3: "emittedSnippet exampleLibrary nextjs ''clerk'' ''layoutProvider'' = Some ''<FlowgladProvider>''"
    by (simp add: emittedSnippet_def)
  from t have 4: "snd (resolveSnippets exampleLibrary nextjs) = exampleLibrary" by blast
  from 1 2 m1 3 4 show ?thesis by blast
qed

text \<open>
  The claim as it was stated fails: with the package name \<open>$&\<close>, which \<open>replace\<close> reads as
  the matched text, the marker is replaced by itself and is still in the value that is
  emitted.
\<close>

theorem resolveSnippets_resolved_counterexample:
  "base oddLibrary = Some [(''clerk'', [(''serverInitTemplate'', ''import {SERVER_PKG}'')])]
   \<and> emittedSnippet oddLibrary nextjs ''clerk'' ''serverInit'' = Some ''import {SERVER_PKG}''
   \<and> sublist ''{SERVER_PKG}'' ''import {SERVER_PKG}''"
  by code_simp

subsection \<open>The two phases\<close>




subsection \<open>A pricing model that cannot be had\<close>

text \<open>
  Claim C6, as amended. In a run with an API key and a non-empty analysis document, when
  the steps after the fetch go through (the template and the snippets are read, the token
  map is built and applied): if the fetch of the pricing model throws or finds none, the
  operation returns the customised instructions followed by the status section with the
  message that no default pricing model was found; if a pricing model is found and its
  serialisation throws, it returns them followed by the status section with the message
  that the YAML could not be generated. The two messages differ, and neither status
  section has a YAML block. The steps after the fetch go through when the two files are
  read and every token map that is built can be applied.
\<close>

theorem getSetupInstructions_pricing_model_unavailable:
  "(resolveBearerToken env apiKey = Inr key \<and> codebaseAnalysis args = Some doc \<and> doc \<noteq> []
      \<and> (fetchDefaultPricingModel env key = Throws message
           \<or> fetchDefaultPricingModel env key = Returns None)
      \<and> customizeInstructions env args (extractCodebaseInfo (Some doc) Map.empty) None
           = (steps, Inr customizedInstructions)
      \<longrightarrow> snd (getSetupInstructions env apiKey args)
            = Inr (customizedInstructions @ statusTail noPricingModelStatus))
   \<and> (resolveBearerToken env apiKey = Inr key \<and> codebaseAnalysis args = Some doc \<and> doc \<noteq> []
      \<and> fetchDefaultPricingModel env key = Returns (Some pricingModelData)
      \<and> yamlStringify env pricingModelData = Throws message
      \<and> customizeInstructions env args (extractCodebaseInfo (Some doc) Map.empty) (Some pricingModelData)
           = (steps, Inr customizedInstructions)
      \<longrightarrow> snd (getSetupInstructions env apiKey args)
            = Inr (customizedInstructions @ statusTail yamlFailedStatus))
   \<and> (generationTemplate env = Returns template \<and> codeSnippets env = Returns snippets
      \<and> (\<forall>c. \<exists>reps. buildTemplateReplacements env c = Returns reps
              \<and> applyTemplateReplacements template reps \<noteq> None)
      \<longrightarrow> (\<exists>steps customizedInstructions.
             customizeInstructions env args info d = (steps, Inr customizedInstructions)))
   \<and> sublist ''No default pricing model found'' (statusTail noPricingModelStatus)
   \<and> \<not> sublist ''```yaml'' (statusTail noPricingModelStatus)
   \<and> sublist ''Failed to generate YAML'' (statusTail yamlFailedStatus)
   \<and> \<not> sublist ''```yaml'' (statusTail yamlFailedStatus)
   \<and> yamlFailedStatus \<noteq> noPricingModelStatus
   \<and> \<not> sublist noPricingModelStatus (statusTail yamlFailedStatus)"
proof (intro conjI impI)
  assume a: "resolveBearerToken env apiKey = Inr key \<and> codebaseAnalysis args = Some doc \<and> doc \<noteq> []
      \<and> (fetchDefaultPricingModel env key = Throws message
           \<or> fetchDefaultPricingModel env key = Returns None)
      \<and> customizeInstructions env args (extractCodebaseInfo (Some doc) Map.empty) None
           = (steps, Inr customizedInstructions)"
  then have k: "resolveBearerToken env apiKey = Inr key" and d: "codebaseAnalysis args = Some doc"
    by blast+
  from a have n: "\<not> analysisRequired args" by (simp add: analysisRequired_def truthy_def)
  from a have f: "fetchPricingModel env key = ([FetchPricingModelStep], None, None, None)"
    using fetchPricingModel_absent by blast
  from a d have c: "customizeInstructions env args (extractCodebaseInfo (codebaseAnalysis args) Map.empty) None
           = (steps, Inr customizedInstructions)" by simp
  from getSetupInstructions_status [OF k n f c]
  show "snd (getSetupInstructions env apiKey args)
            = Inr (customizedInstructions @ statusTail noPricingModelStatus)"
    by (simp add: pricingModelStatus_def)
next
  assume a: "resolveBearerToken env apiKey = Inr key \<and> codebaseAnalysis args = Some doc \<and> doc \<noteq> []
      \<and> fetchDefaultPricingModel env key = Returns (Some pricingModelData)
      \<and> yamlStringify env pricingModelData = Throws message
      \<and> customizeInstructions env args (extractCodebaseInfo (Some doc) Map.empty) (Some pricingModelData)
           = (steps, Inr customizedInstructions)"
  then have k: "resolveBearerToken env apiKey = Inr key" and d: "codebaseAnalysis args = Some doc"
    by blast+
  from a have n: "\<not> analysisRequired args" by (simp add: analysisRequired_def truthy_def)
  from a have f: "fetchPricingModel env key
      = ([FetchPricingModelStep, YamlStringifyStep], Some pricingModelData, None, None)"
    using fetchPricingModel_yaml_throws by blast
  from a d have c: "customizeInstructions env args (extractCodebaseInfo (codebaseAnalysis args) Map.empty)
           (Some pricingModelData) = (steps, Inr customizedInstructions)" by simp
  from getSetupInstructions_status [OF k n f c]
  show "snd (getSetupInstructions env apiKey args)
            = Inr (customizedInstructions @ statusTail yamlFailedStatus)"
    by (simp add: pricingModelStatus_def)
next
  assume "generationTemplate env = Returns template \<and> codeSnippets env = Returns snippets
      \<and> (\<forall>c. \<exists>reps. buildTemplateReplacements env c = Returns reps
              \<and> applyTemplateReplacements template reps \<noteq> None)"
  then show "\<exists>steps customizedInstructions.
             customizeInstructions env args info d = (steps, Inr customizedInstructions)"
    using customizeInstructions_returns [of env template snippets args info d] by blast
next
  show "sublist ''No default pricing model found'' (statusTail noPricingModelStatus)" by code_simp
next
  show "\<not> sublist ''```yaml'' (statusTail noPricingModelStatus)" by code_simp
next
  show "sublist ''Failed to generate YAML'' (statusTail yamlFailedStatus)" by code_simp
next
  show "\<not> sublist ''```yaml'' (statusTail yamlFailedStatus)" by code_simp
next
  show "yamlFailedStatus \<noteq> noPricingModelStatus" by code_simp
next
  show "\<not> sublist noPricingModelStatus (statusTail yamlFailedStatus)" by code_simp
qed

text \<open>
  The theorem with a fetch that throws, and with a pricing model whose serialisation
  throws; in both the template and the snippets are read and the token map has the one
  key \<open>{FRAMEWORK}\<close>.
\<close>

theorem getSetupInstructions_pricing_model_unavailable_witness:
  "(\<exists>customizedInstructions.
      snd (getSetupInstructions exampleEnv ''sk_test_1'' analysedArgs)
        = Inr (customizedInstructions @ statusTail noPricingModelStatus))
   \<and> (\<exists>customizedInstructions.
      snd (getSetupInstructions envWithModel ''sk_test_1'' analysedArgs)
        = Inr (customizedInstructions @ statusTail yamlFailedStatus))"
proof -
  let ?doc = "''The application uses Next.js.''"
  let ?info = "extractCodebaseInfo (Some ?doc) Map.empty"
  let ?template = "''Integrate Flowglad into {FRAMEWORK}.''"
  have ck: "compileKey ''{FRAMEWORK}'' \<noteq> None" by code_simp
  have ap: "applyTemplateReplacements ?template [(''{FRAMEWORK}'', v)] \<noteq> None" for v
    using ck by (cases "compileKey ''{FRAMEWORK}''") (simp_all del: compileKey.simps)
  have k1: "resolveBearerToken exampleEnv ''sk_test_1'' = Inr ''sk_test_1''" by code_simp
  have k2: "resolveBearerToken envWithModel ''sk_test_1'' = Inr ''sk_test_1''" by code_simp
  have d: "codebaseAnalysis analysedArgs = Some ?doc" and n: "?doc \<noteq> []"
    by (simp_all add: analysedArgs_def)
  have f1: "fetchDefaultPricingModel exampleEnv ''sk_test_1'' = Throws ''connection refused''"
    by (simp add: exampleEnv_def)
  have f2: "fetchDefaultPricingModel envWithModel ''sk_test_1'' = Returns (Some exampleModel)"
    and y2: "yamlStringify envWithModel exampleModel = Throws ''not serializable''"
    by (simp_all add: envWithModel_def exampleEnv_def)
  have t1: "generationTemplate exampleEnv = Returns ?template"
    and s1: "codeSnippets exampleEnv = Returns exampleLibrary"
    and t2: "generationTemplate envWithModel = Returns ?template"
    and s2: "codeSnippets envWithModel = Returns exampleLibrary"
    by (simp_all add: envWithModel_def exampleEnv_def)
  have b1: "\<forall>c. \<exists>reps. buildTemplateReplacements exampleEnv c = Returns reps
              \<and> applyTemplateReplacements ?template reps \<noteq> None"
  proof
    fix c
    obtain i a p s ps sd where c: "c = Context i a p s ps sd" by (cases c)
    from ap show "\<exists>reps. buildTemplateReplacements exampleEnv c = Returns reps
              \<and> applyTemplateReplacements ?template reps \<noteq> None"
      unfolding c by (simp add: exampleEnv_def del: applyTemplateReplacements.simps compileKey.simps)
  qed
  have b2: "\<forall>c. \<exists>reps. buildTemplateReplacements envWithModel c = Returns reps
              \<and> applyTemplateReplacements ?template reps \<noteq> None"
  proof
    fix c
    obtain i a p s ps sd where c: "c = Context i a p s ps sd" by (cases c)
    from ap show "\<exists>reps. buildTemplateReplacements envWithModel c = Returns reps
              \<and> applyTemplateReplacements ?template reps \<noteq> None"
      unfolding c by (simp add: envWithModel_def exampleEnv_def del: applyTemplateReplacements.simps compileKey.simps)
  qed
  from getSetupInstructions_pricing_model_unavailable
      [where env = exampleEnv and template = ?template and snippets = exampleLibrary
         and args = analysedArgs and info = ?info and d = None] t1 s1 b1
  obtain steps1 c1 where c1: "customizeInstructions exampleEnv analysedArgs ?info None = (steps1, Inr c1)"
    by blast
  from getSetupInstructions_pricing_model_unavailable
      [where env = exampleEnv and apiKey = "''sk_test_1''" and key = "''sk_test_1''"
         and args = analysedArgs and doc = ?doc and message = "''connection refused''"
         and steps = steps1 and customizedInstructions = c1]
    k1 d n f1 c1
  have 1: "snd (getSetupInstructions exampleEnv ''sk_test_1'' analysedArgs)
        = Inr (c1 @ statusTail noPricingModelStatus)" by blast
  from getSetupInstructions_pricing_model_unavailable
      [where env = envWithModel and template = ?template and snippets = exampleLibrary
         and args = analysedArgs and info = ?info and d = "Some exampleModel"] t2 s2 b2
  obtain steps2 c2 where c2: "customizeInstructions envWithModel analysedArgs ?info (Some exampleModel)
      = (steps2, Inr c2)"
    by blast
  from getSetupInstructions_pricing_model_unavailable
      [where env = envWithModel and apiKey = "''sk_test_1''" and key = "''sk_test_1''"
         and args = analysedArgs and doc = ?doc and message = "''not serializable''"
         and steps = steps2 and customizedInstructions = c2 and pricingModelData = exampleModel]
    k2 d n f2 y2 c2
  have 2: "snd (getSetupInstructions envWithModel ''sk_test_1'' analysedArgs)
        = Inr (c2 @ statusTail yamlFailedStatus)" by blast
  from 1 2 show ?thesis by blast
qed

text \<open>
  The claim as it was stated fails: this run has an API key and an analysis document, the
  fetch of the pricing model throws, and the generation template cannot be read; the
  operation throws after the fetch and returns no document.
\<close>

theorem getSetupInstructions_pricing_model_unavailable_counterexample:
  "codebaseAnalysis analysedArgs = Some ''The application uses Next.js.''
   \<and> fetchDefaultPricingModel envWithoutTemplate ''sk_test_1'' = Throws ''connection refused''
   \<and> getSetupInstructions envWithoutTemplate ''sk_test_1'' analysedArgs
       = ([ExtractCodebaseInfoStep, FetchPricingModelStep, LoadGenerationTemplateStep],
          Inl (Thrown ''ENOENT''))"
proof -
  have k: "resolveBearerToken envWithoutTemplate ''sk_test_1'' = Inr ''sk_test_1''" by code_simp
  have n: "\<not> analysisRequired analysedArgs"
    by (simp add: analysisRequired_def truthy_def analysedArgs_def)
  have f: "fetchDefaultPricingModel envWithoutTemplate ''sk_test_1'' = Throws ''connection refused''"
    by (simp add: envWithoutTemplate_def exampleEnv_def)
  then have fp: "fetchPricingModel envWithoutTemplate ''sk_test_1'' = ([FetchPricingModelStep], None, None, None)"
    by (simp add: fetchPricingModel_def)
  have c: "customizeInstructions envWithoutTemplate analysedArgs info None
      = ([LoadGenerationTemplateStep], Inl (Thrown ''ENOENT''))" for info
    by (simp add: customizeInstructions_def envWithoutTemplate_def Let_def)
  from k n fp c have "getSetupInstructions envWithoutTemplate ''sk_test_1'' analysedArgs
       = ([ExtractCodebaseInfoStep, FetchPricingModelStep, LoadGenerationTemplateStep],
          Inl (Thrown ''ENOENT''))"
    by (simp add: getSetupInstructions_def Let_def)
  with f show ?thesis by (simp add: analysedArgs_def)
qed

subsection \<open>The empty analysis document\<close>




end
